theory Spec2Isabelle
  imports Main
begin

section \<open>JavaScript values used by the store\<close>

text \<open>
  Strings are character lists; a character stands for the UTF-16 code unit of its number,
  so the strings of the model are those whose code units are below 256. A JavaScript
  string is falsy exactly when it is empty, and
  an absent field (\<^verbatim>\<open>undefined\<close>) is \<open>None\<close>. The operator \<^verbatim>\<open>a || b\<close> on two
  possibly absent strings is \<open>js_or\<close>; its result is again possibly absent.
  Counters are natural numbers (JavaScript numbers are exact on the integers a tab counter
  can reach), and the template literal \<^verbatim>\<open>${next}\<close> renders them in decimal.
\<close>

definition truthy :: "string option \<Rightarrow> bool" where
  "truthy v = (case v of None \<Rightarrow> False | Some s \<Rightarrow> s \<noteq> [])"

definition js_or :: "string option \<Rightarrow> string option \<Rightarrow> string option" where
  "js_or a b = (if truthy a then a else b)"

definition digit_char :: "nat \<Rightarrow> char" where
  "digit_char d = ''0123456789'' ! d"

fun num_to_string :: "nat \<Rightarrow> string" where
  "num_to_string n =
     (if n < 10 then [digit_char n]
      else num_to_string (n div 10) @ [digit_char (n mod 10)])"

declare num_to_string.simps [simp del]

datatype error = TypeError

fun nth_opt :: "'a list \<Rightarrow> nat \<Rightarrow> 'a option" where
  "nth_opt [] i = None"
| "nth_opt (x # xs) 0 = Some x"
| "nth_opt (x # xs) (Suc i) = nth_opt xs i"

text \<open>\<^verbatim>\<open>Array.prototype.findIndex\<close>: the first index whose element satisfies the
  predicate, or \<open>-1\<close>.\<close>

fun findIndex :: "('a \<Rightarrow> bool) \<Rightarrow> 'a list \<Rightarrow> int" where
  "findIndex P [] = -1"
| "findIndex P (x # xs) =
     (if P x then 0 else (let i = findIndex P xs in if i < 0 then -1 else i + 1))"

section \<open>The Tab Store (the zustand store \<^verbatim>\<open>useCompilerStore\<close>)\<close>

record tab =
  tab_id :: string
  name :: string
  content :: string
  isCustomName :: bool
  tab_languageId :: "nat option"
  path :: "string option"

record store =
  tabs :: "tab list"
  activeTabId :: string
  nextTabCounter :: nat
  source :: string
  languageId :: nat
  leaderboardTick :: nat
  unsavedFiles :: "string \<rightharpoonup> bool"
  isSaving :: bool
  saveStatus :: "string option"

definition findTab :: "string \<Rightarrow> tab list \<Rightarrow> tab option" where
  "findTab i ts = find (\<lambda>t. tab_id t = i) ts"

definition mkTabId :: "nat \<Rightarrow> string" where
  "mkTabId n = ''tab-'' @ num_to_string n"

text \<open>
  \<^verbatim>\<open>baseName.replace(/(\.[^.]+)?$/, (m) => m ? `_${next}${m}` : `_${next}`)\<close>:
  the pattern matches, leftmost, either a final extension (the last dot followed by at
  least one character, none of them a dot) or the empty string at the end of the name.
  \<open>extMatch\<close> is the matched text \<open>m\<close>.
\<close>

definition extMatch :: "string \<Rightarrow> string" where
  "extMatch s =
     (let suf = rev (takeWhile (\<lambda>c. c \<noteq> CHR ''.'') (rev s))
      in if suf \<noteq> [] \<and> length suf < length s then CHR ''.'' # suf else [])"

definition numberedName :: "string \<Rightarrow> nat \<Rightarrow> string" where
  "numberedName baseName n =
     (let m = extMatch baseName
      in take (length baseName - length m) baseName @ ''_'' @ num_to_string n @ m)"

text \<open>
  The functions \<^verbatim>\<open>getMonacoLanguage\<close> and \<^verbatim>\<open>getDefaultFileNameForMonaco\<close> live in
  \<^verbatim>\<open>lib/languageUtils\<close>; their composition is the parameter \<open>dfn\<close> of every operation
  that needs a default file name.
\<close>

definition addTab :: "(nat \<Rightarrow> string) \<Rightarrow> store \<Rightarrow> store" where
  "addTab dfn st =
     (let next = nextTabCounter st + 1;
          baseName = dfn (languageId st);
          nm = (if next = 1 then baseName else numberedName baseName next);
          newTab = \<lparr>tab_id = mkTabId next, name = nm, content = [], isCustomName = False,
                    tab_languageId = Some (languageId st), path = None\<rparr>
      in st\<lparr>tabs := tabs st @ [newTab], activeTabId := tab_id newTab,
             nextTabCounter := next, source := [],
             leaderboardTick := leaderboardTick st + 1\<rparr>)"

definition createTab ::
  "(nat \<Rightarrow> string) \<Rightarrow> string option \<Rightarrow> string option \<Rightarrow> bool \<Rightarrow> string option \<Rightarrow> store \<Rightarrow> store" where
  "createTab dfn nm cont custom pth st =
     (let next = nextTabCounter st + 1;
          safeName = (case nm of None \<Rightarrow> dfn (languageId st)
                      | Some s \<Rightarrow> if s \<noteq> [] then s else dfn (languageId st));
          c = (case cont of None \<Rightarrow> [] | Some c \<Rightarrow> c);
          newTab = \<lparr>tab_id = mkTabId next, name = safeName, content = c,
                    isCustomName = custom, tab_languageId = Some (languageId st),
                    path = pth\<rparr>
      in st\<lparr>tabs := tabs st @ [newTab], activeTabId := tab_id newTab,
             nextTabCounter := next, source := c,
             leaderboardTick := leaderboardTick st + 1\<rparr>)"

text \<open>\<^verbatim>\<open>find(...) || state.tabs[0]\<close>; reading a field of the result raises a
  \<^verbatim>\<open>TypeError\<close> when the list is empty.\<close>

definition findOrFirst :: "string \<Rightarrow> tab list \<Rightarrow> tab option" where
  "findOrFirst i ts = (case findTab i ts of Some t \<Rightarrow> Some t | None \<Rightarrow> nth_opt ts 0)"

definition tabLang :: "tab \<Rightarrow> store \<Rightarrow> nat" where
  "tabLang t st = (case tab_languageId t of Some l \<Rightarrow> l | None \<Rightarrow> languageId st)"

definition selectTab :: "string \<Rightarrow> store \<Rightarrow> error + store" where
  "selectTab tabId st =
     (case findOrFirst tabId (tabs st) of
        None \<Rightarrow> Inl TypeError
      | Some t \<Rightarrow> Inr (st\<lparr>activeTabId := tab_id t, source := content t,
                             languageId := tabLang t st\<rparr>))"

definition updateTabContent :: "string \<Rightarrow> string \<Rightarrow> store \<Rightarrow> store" where
  "updateTabContent tabId c st =
     st\<lparr>tabs := map (\<lambda>t. if tab_id t = tabId then t\<lparr>content := c\<rparr> else t) (tabs st)\<rparr>"

definition renameTab :: "string \<Rightarrow> string \<Rightarrow> string option \<Rightarrow> store \<Rightarrow> store" where
  "renameTab tabId newName newPath st =
     st\<lparr>tabs := map (\<lambda>t. if tab_id t = tabId
                           then t\<lparr>name := newName, isCustomName := True,
                                  path := (case newPath of Some p \<Rightarrow> Some p | None \<Rightarrow> path t)\<rparr>
                           else t) (tabs st)\<rparr>"


subsection \<open>duplicateTab\<close>

text \<open>
  \<^verbatim>\<open>(original.name || "untitled").replace(/ Copy( \d+)?(\.[^.]+)?$/, "")\<close>.
  The pattern is anchored at the end, so a match starting at index \<open>i\<close> is the whole
  rest of the string from \<open>i\<close>, and \<^verbatim>\<open>replace\<close> takes the leftmost \<open>i\<close> at which
  the rest has the shape \<open>'' Copy''\<close>, then optionally a blank and decimal digits, then
  optionally an extension. \<open>copySuffix\<close> decides that shape; \<open>stripCopy\<close> cuts the
  string at the leftmost such index and leaves it alone when there is none.
\<close>

definition isDigit :: "char \<Rightarrow> bool" where
  "isDigit c = (c \<in> set ''0123456789'')"

definition isExt :: "string \<Rightarrow> bool" where
  "isExt r = (case r of [] \<Rightarrow> False
              | c # xs \<Rightarrow> c = CHR ''.'' \<and> xs \<noteq> [] \<and> CHR ''.'' \<notin> set xs)"

definition optExt :: "string \<Rightarrow> bool" where
  "optExt r = (r = [] \<or> isExt r)"

definition copyTail :: "string \<Rightarrow> bool" where
  "copyTail r =
     (optExt r \<or>
      (case r of [] \<Rightarrow> False
       | c # xs \<Rightarrow> c = CHR '' '' \<and> takeWhile isDigit xs \<noteq> [] \<and> optExt (dropWhile isDigit xs)))"

definition copySuffix :: "string \<Rightarrow> bool" where
  "copySuffix s = (take 5 s = '' Copy'' \<and> copyTail (drop 5 s))"

fun stripCopy :: "string \<Rightarrow> string" where
  "stripCopy [] = []"
| "stripCopy (c # cs) = (if copySuffix (c # cs) then [] else c # stripCopy cs)"

text \<open>
  The loop \<^verbatim>\<open>while (taken.has(candidate)) { counter += 1; candidate = `${safeBase} Copy ${counter}`; }\<close>
  over the names of the open tabs. It stops because the candidates are pairwise different
  and the tabs are finitely many; that is its termination proof below.
\<close>

definition copyName :: "string \<Rightarrow> nat \<Rightarrow> string" where
  "copyName safeBase counter = safeBase @ '' Copy '' @ num_to_string counter"

function copyLoop :: "string \<Rightarrow> string list \<Rightarrow> nat \<Rightarrow> string \<Rightarrow> string" where
  "copyLoop safeBase taken counter candidate =
     (if candidate \<in> set taken
      then copyLoop safeBase taken (counter + 1) (copyName safeBase (counter + 1))
      else candidate)"
  by pat_completeness auto

definition safeBase :: "tab \<Rightarrow> string" where
  "safeBase original =
     stripCopy (if name original \<noteq> [] then name original else ''untitled'')"

definition duplicateTab :: "string \<Rightarrow> store \<Rightarrow> store" where
  "duplicateTab tabId st =
     (case findTab tabId (tabs st) of
        None \<Rightarrow> st
      | Some original \<Rightarrow>
          (let next = nextTabCounter st + 1;
               base = safeBase original;
               taken = map name (tabs st);
               candidate = copyLoop base taken 1 (base @ '' Copy'');
               duplicated = \<lparr>tab_id = mkTabId next, name = candidate,
                             content = content original, isCustomName = True,
                             tab_languageId = Some (tabLang original st), path = None\<rparr>
           in st\<lparr>tabs := tabs st @ [duplicated], activeTabId := tab_id duplicated,
                  nextTabCounter := next, source := content duplicated,
                  languageId := tabLang original st,
                  leaderboardTick := leaderboardTick st + 1\<rparr>))"

subsection \<open>Closing and deleting\<close>

text \<open>
  \<open>removeTab\<close> is the part that \<^verbatim>\<open>closeTab\<close> and \<^verbatim>\<open>deleteTab\<close> share: filter the
  tab out, pick the fallback \<^verbatim>\<open>nextTabs[Math.max(index - 1, 0)]\<close> when the removed tab was
  active, and load the active tab into the editor. Reading \<^verbatim>\<open>.id\<close> or \<^verbatim>\<open>.content\<close> of
  \<^verbatim>\<open>undefined\<close> raises, and then zustand leaves the state as it was.
\<close>

definition removeTab :: "string \<Rightarrow> int \<Rightarrow> store \<Rightarrow> error + store" where
  "removeTab tabId index st =
     (let nextTabs = filter (\<lambda>t. tab_id t \<noteq> tabId) (tabs st);
          fallback = nth_opt nextTabs (nat (max (index - 1) 0))
      in if tabId = activeTabId st \<and> fallback = None then Inl TypeError
         else
           (let nextActive = (if tabId = activeTabId st then tab_id (the fallback)
                              else activeTabId st)
            in case findOrFirst nextActive nextTabs of
                 None \<Rightarrow> Inl TypeError
               | Some activeTab \<Rightarrow>
                   Inr (st\<lparr>tabs := nextTabs, activeTabId := nextActive,
                           source := content activeTab,
                           languageId := tabLang activeTab st,
                           leaderboardTick := leaderboardTick st + 1\<rparr>)))"

definition closeTab :: "string \<Rightarrow> store \<Rightarrow> error + store" where
  "closeTab tabId st =
     (if length (tabs st) = 1 then Inr st
      else (let index = findIndex (\<lambda>t. tab_id t = tabId) (tabs st)
            in if index = -1 then Inr st else removeTab tabId index st))"

definition closeOthers :: "string \<Rightarrow> store \<Rightarrow> error + store" where
  "closeOthers tabId st =
     (case findOrFirst tabId (tabs st) of
        None \<Rightarrow> Inl TypeError
      | Some target \<Rightarrow>
          Inr (st\<lparr>tabs := [target], activeTabId := tab_id target,
                  source := content target, languageId := tabLang target st,
                  leaderboardTick := leaderboardTick st + 1\<rparr>))"

definition baseTab :: "(nat \<Rightarrow> string) \<Rightarrow> store \<Rightarrow> tab" where
  "baseTab dfn st =
     \<lparr>tab_id = ''tab-1'', name = dfn (languageId st), content = [],
      isCustomName = False, tab_languageId = Some (languageId st), path = None\<rparr>"

definition closeAll :: "(nat \<Rightarrow> string) \<Rightarrow> store \<Rightarrow> store" where
  "closeAll dfn st =
     st\<lparr>tabs := [baseTab dfn st], activeTabId := tab_id (baseTab dfn st),
        nextTabCounter := 1, source := [],
        leaderboardTick := leaderboardTick st + 1\<rparr>"

text \<open>The branch of \<^verbatim>\<open>deleteTab\<close> for the last tab builds the same object as
  \<^verbatim>\<open>closeAll\<close>, field by field, so the model calls \<open>closeAll\<close> there.\<close>

definition deleteTab :: "(nat \<Rightarrow> string) \<Rightarrow> string \<Rightarrow> store \<Rightarrow> error + store" where
  "deleteTab dfn tabId st =
     (if length (tabs st) = 1 \<and> tab_id (hd (tabs st)) = tabId then Inr (closeAll dfn st)
      else removeTab tabId (findIndex (\<lambda>t. tab_id t = tabId) (tabs st)) st)"

subsection \<open>Sessions\<close>

text \<open>The store as the module creates it: one tab \<^verbatim>\<open>tab-1\<close>, active, counter 1. The
  first tab's name and text and the rest of the state are left open.\<close>

definition initial :: "store \<Rightarrow> bool" where
  "initial st =
     (map tab_id (tabs st) = [''tab-1''] \<and> activeTabId st = ''tab-1'' \<and>
      nextTabCounter st = 1)"

datatype tabOp =
    AddTab
  | CreateTab "string option" "string option" bool "string option"
  | SelectTab string
  | UpdateTabContent string string
  | RenameTab string string "string option"
  | DuplicateTab string
  | CloseTab string
  | CloseOthers string
  | CloseAll
  | DeleteTab string

fun applyOp :: "(nat \<Rightarrow> string) \<Rightarrow> tabOp \<Rightarrow> store \<Rightarrow> error + store" where
  "applyOp dfn AddTab st = Inr (addTab dfn st)"
| "applyOp dfn (CreateTab nm c custom p) st = Inr (createTab dfn nm c custom p st)"
| "applyOp dfn (SelectTab i) st = selectTab i st"
| "applyOp dfn (UpdateTabContent i c) st = Inr (updateTabContent i c st)"
| "applyOp dfn (RenameTab i n p) st = Inr (renameTab i n p st)"
| "applyOp dfn (DuplicateTab i) st = Inr (duplicateTab i st)"
| "applyOp dfn (CloseTab i) st = closeTab i st"
| "applyOp dfn (CloseOthers i) st = closeOthers i st"
| "applyOp dfn CloseAll st = Inr (closeAll dfn st)"
| "applyOp dfn (DeleteTab i) st = deleteTab dfn i st"

text \<open>A raised exception aborts the one call that raised; the store keeps its state and
  the session goes on. \<open>runOps\<close> returns the final store and how many calls raised.\<close>

fun runOps :: "(nat \<Rightarrow> string) \<Rightarrow> tabOp list \<Rightarrow> store \<Rightarrow> store \<times> nat" where
  "runOps dfn [] st = (st, 0)"
| "runOps dfn (x # xs) st =
     (case applyOp dfn x st of
        Inl e \<Rightarrow> (let (st', n) = runOps dfn xs st in (st', Suc n))
      | Inr st1 \<Rightarrow> runOps dfn xs st1)"


section \<open>Inbound edits (the \<^verbatim>\<open>message\<close> listener of \<^verbatim>\<open>EditorPanel\<close>)\<close>

record editMsg =
  filePath :: string
  msg_content :: string
  clientId :: string
  timestamp :: int

datatype wsIn = Unparsable | NonEdit | Edit editMsg

text \<open>\<^verbatim>\<open>lastAppliedRemote\<close>, one slot for all files; it starts as
  \<^verbatim>\<open>{ filePath: null, timestamp: 0 }\<close>.\<close>

record marker =
  mk_filePath :: "string option"
  mk_timestamp :: int

definition setSource :: "string \<Rightarrow> store \<Rightarrow> store" where
  "setSource s st = st\<lparr>source := s\<rparr>"

text \<open>\<^verbatim>\<open>activeTab?.path || activeTab?.name\<close>: absent when no tab has the active id, and
  the name when the path is absent or empty.\<close>

definition activePath :: "store \<Rightarrow> string option" where
  "activePath st =
     (case findTab (activeTabId st) (tabs st) of
        None \<Rightarrow> None
      | Some t \<Rightarrow> js_or (path t) (Some (name t)))"

text \<open>
  The collaboration key of the active tab. The handler, the subscription effect and the
  publishing effect all return at \<^verbatim>\<open>if (!activePath)\<close>: an absent or empty value is no
  key.
\<close>

definition collabKey :: "store \<Rightarrow> string option" where
  "collabKey st = (if truthy (activePath st) then activePath st else None)"

definition onEdit :: "string \<Rightarrow> editMsg \<Rightarrow> store \<times> marker \<Rightarrow> store \<times> marker" where
  "onEdit CLIENT_ID msg sm =
     (let st = fst sm; lastApplied = snd sm
      in if clientId msg = CLIENT_ID then sm
         else if \<not> truthy (activePath st) then sm
         else if activePath st = Some (filePath msg) then
           (if timestamp msg > mk_timestamp lastApplied
            then (setSource (msg_content msg)
                    (updateTabContent (activeTabId st) (msg_content msg) st),
                  \<lparr>mk_filePath = Some (filePath msg), mk_timestamp = timestamp msg\<rparr>)
            else sm)
         else sm)"

definition onMessage :: "string \<Rightarrow> wsIn \<Rightarrow> store \<times> marker \<Rightarrow> store \<times> marker" where
  "onMessage CLIENT_ID evt sm = (case evt of Edit msg \<Rightarrow> onEdit CLIENT_ID msg sm | _ \<Rightarrow> sm)"

section \<open>Subscriptions (the effect on \<^verbatim>\<open>[tabs, activeTabId]\<close>)\<close>

datatype readyState = CONNECTING | OPEN | CLOSING | CLOSED

datatype wsOut = Subscribe string | Unsubscribe string | UnsubscribeAll | EditOut editMsg

text \<open>
  The socket: its state, the \<^verbatim>\<open>onOpen\<close> closures registered with \<^verbatim>\<open>{ once: true }\<close>
  (each is determined by the \<^verbatim>\<open>activePath\<close> it captured) and the frames sent so far.
  Every \<^verbatim>\<open>ws.send\<close> of the component either runs with the socket open or sits in a
  \<^verbatim>\<open>try\<close> that swallows the exception, so \<open>wsSend\<close> transmits on an open socket and
  does nothing otherwise.
\<close>

record socket =
  readyState :: readyState
  openListeners :: "string option list"
  sent :: "wsOut list"

definition wsSend :: "wsOut \<Rightarrow> socket \<Rightarrow> socket" where
  "wsSend m w = (if readyState w = OPEN then w\<lparr>sent := sent w @ [m]\<rparr> else w)"

text \<open>One run of the effect body. The second component is the cleanup the run returns:
  \<open>None\<close> when it returns nothing (the early \<^verbatim>\<open>return\<close>), otherwise the captured
  \<^verbatim>\<open>activePath\<close>.\<close>

definition subscribeEffect ::
  "store \<Rightarrow> socket option \<Rightarrow> socket option \<times> string option option" where
  "subscribeEffect st wsRef =
     (let ap = activePath st
      in case wsRef of
           None \<Rightarrow> (None, None)
         | Some w \<Rightarrow>
             if readyState w \<noteq> OPEN
             then (Some (w\<lparr>openListeners := openListeners w @ [ap]\<rparr>), None)
             else (let w1 = wsSend UnsubscribeAll w;
                       w2 = (case ap of
                               None \<Rightarrow> w1
                             | Some p \<Rightarrow> if p \<noteq> [] then wsSend (Subscribe p) w1 else w1)
                   in (Some w2, Some ap)))"

definition subscribeCleanup :: "string option \<Rightarrow> socket \<Rightarrow> socket" where
  "subscribeCleanup ap w =
     (case ap of
        None \<Rightarrow> w
      | Some p \<Rightarrow> if readyState w = OPEN \<and> p \<noteq> [] then wsSend (Unsubscribe p) w else w)"

definition onOpen :: "string option \<Rightarrow> socket \<Rightarrow> socket" where
  "onOpen ap w =
     (case ap of None \<Rightarrow> w | Some p \<Rightarrow> if p \<noteq> [] then wsSend (Subscribe p) w else w)"

text \<open>The socket's \<^verbatim>\<open>open\<close> event: the state becomes \<^verbatim>\<open>OPEN\<close> and the registered
  listeners run once each, in the order of their registration.\<close>

definition fireOpen :: "socket \<Rightarrow> socket" where
  "fireOpen w =
     (if readyState w = CONNECTING
      then foldl (\<lambda>w' ap. onOpen ap w') (w\<lparr>readyState := OPEN, openListeners := []\<rparr>)
             (openListeners w)
      else w)"

text \<open>What React does with the effect: when \<^verbatim>\<open>tabs\<close> or \<^verbatim>\<open>activeTabId\<close> changed, the
  cleanup of the previous run (if it returned one), then the body on the new store.\<close>

record subscription =
  wsRef :: "socket option"
  cleanup :: "string option option"

datatype event = Render store | SocketOpen

fun step :: "event \<Rightarrow> subscription \<Rightarrow> subscription" where
  "step (Render st) s =
     (let w1 = (case cleanup s of
                  None \<Rightarrow> wsRef s
                | Some ap \<Rightarrow> map_option (subscribeCleanup ap) (wsRef s));
          r = subscribeEffect st w1
      in \<lparr>wsRef = fst r, cleanup = snd r\<rparr>)"
| "step SocketOpen s = s\<lparr>wsRef := map_option fireOpen (wsRef s)\<rparr>"

definition run :: "event list \<Rightarrow> subscription \<Rightarrow> subscription" where
  "run evs s = foldl (\<lambda>s' e. step e s') s evs"

text \<open>Modelled from the spec: the relay is not part of this repository. Section 6 of the
  specification gives its protocol: \<^verbatim>\<open>subscribe\<close> adds the file to the client's
  subscriptions, \<^verbatim>\<open>unsubscribe\<close> removes it, \<^verbatim>\<open>unsubscribe-all\<close> removes all.\<close>

fun relay :: "string list \<Rightarrow> wsOut \<Rightarrow> string list" where
  "relay subs (Subscribe p) = (if p \<in> set subs then subs else subs @ [p])"
| "relay subs (Unsubscribe p) = removeAll p subs"
| "relay subs UnsubscribeAll = []"
| "relay subs (EditOut m) = subs"

definition subscribedAfter :: "wsOut list \<Rightarrow> string list" where
  "subscribedAfter frames = foldl relay [] frames"

section \<open>Publishing (the debounced effect on \<^verbatim>\<open>[source, activeTabId, tabs]\<close>)\<close>










section \<open>Renaming a tab (\<^verbatim>\<open>handleConfirmInlineRename\<close>)\<close>

text \<open>\<^verbatim>\<open>String.prototype.trim\<close> strips white space and line terminators from both
  ends. Among the code units below 256 these are tab, line feed, vertical tab, form feed,
  carriage return, blank and the no-break space U+00A0.\<close>

definition isSpace :: "char \<Rightarrow> bool" where
  "isSpace c =
     (c \<in> set [CHR 0x09, CHR 0x0A, CHR 0x0B, CHR 0x0C, CHR 0x0D, CHR 0x20, CHR 0xA0])"

definition trim :: "string \<Rightarrow> string" where
  "trim s = rev (dropWhile isSpace (rev (dropWhile isSpace s)))"

definition isAlnum :: "char \<Rightarrow> bool" where
  "isAlnum c =
     (c \<in> set ''abcdefghijklmnopqrstuvwxyzABCDEFGHIJKLMNOPQRSTUVWXYZ0123456789'')"

definition toLower :: "char \<Rightarrow> char" where
  "toLower c =
     (case map_of (zip ''ABCDEFGHIJKLMNOPQRSTUVWXYZ'' ''abcdefghijklmnopqrstuvwxyz'') c of
        None \<Rightarrow> c
      | Some l \<Rightarrow> l)"

text \<open>\<^verbatim>\<open>trimmed.match(/\.([a-z0-9]+)$/i)\<close>: the group, when the text after the last dot
  is not empty and all letters and digits.\<close>

definition extOf :: "string \<Rightarrow> string option" where
  "extOf s =
     (let suf = rev (takeWhile (\<lambda>c. c \<noteq> CHR ''.'') (rev s))
      in if length suf < length s \<and> suf \<noteq> [] \<and> list_all isAlnum suf then Some suf
         else None)"

definition allowedExts :: "string list" where
  "allowedExts =
     [''js'', ''jsx'', ''ts'', ''tsx'', ''py'', ''java'', ''c'', ''cpp'', ''rs'', ''go'',
      ''html'', ''css'', ''json'', ''md'', ''txt'', ''sh'', ''bash'', ''yml'', ''yaml'']"

text \<open>The remote rename: it resolves with the response's \<^verbatim>\<open>newPath\<close> (maybe absent) or
  rejects with an error, of which the handler reads \<^verbatim>\<open>err.response.data.error\<close>,
  \<^verbatim>\<open>err.message\<close> and \<^verbatim>\<open>String(err)\<close>.\<close>

record remoteError =
  responseError :: "string option"
  message :: "string option"
  asString :: string

datatype renameReply = Renamed "string option" | RenameRejected remoteError

definition errorText :: "remoteError \<Rightarrow> string" where
  "errorText e =
     (case js_or (js_or (responseError e) (message e)) (Some (asString e)) of
        None \<Rightarrow> []
      | Some s \<Rightarrow> s)"

record renameUi =
  editingTabId :: "string option"
  editingValue :: string
  editingError :: string

definition handleCancelInlineRename :: "renameUi \<Rightarrow> renameUi" where
  "handleCancelInlineRename ui = \<lparr>editingTabId = None, editingValue = [], editingError = []\<rparr>"

text \<open>What a call of the handler did: the store and the inline editor afterwards, the
  calls of \<^verbatim>\<open>renameFile\<close> it made, the calls of the store's \<^verbatim>\<open>renameTab\<close> it made and
  the window events it dispatched. The handler is run to its end: no other event changes
  the store between the remote call and its answer.\<close>

record renameOutcome =
  r_store :: store
  r_ui :: renameUi
  r_remoteCalls :: "(string \<times> string) list"
  r_renameTabCalls :: "(string \<times> string \<times> string option) list"
  r_events :: "string list"

text \<open>\<^verbatim>\<open>tab.path || tab.name\<close>, the path the remote rename is asked to rename.\<close>

definition pathOrName :: "tab \<Rightarrow> string" where
  "pathOrName t = (case js_or (path t) (Some (name t)) of None \<Rightarrow> [] | Some p \<Rightarrow> p)"

definition handleConfirmInlineRename ::
  "(string \<Rightarrow> string \<Rightarrow> renameReply) \<Rightarrow> string \<Rightarrow> store \<Rightarrow> renameUi \<Rightarrow> renameOutcome" where
  "handleConfirmInlineRename renameFile tabId st ui =
     (let trimmed = trim (editingValue ui);
          stop = (\<lambda>ui'. \<lparr>r_store = st, r_ui = ui', r_remoteCalls = [],
                          r_renameTabCalls = [], r_events = []\<rparr>)
      in if trimmed = [] then stop (ui\<lparr>editingError := ''Please provide a name''\<rparr>)
         else case extOf trimmed of
           None \<Rightarrow> stop (ui\<lparr>editingError := ''File extension required (e.g. main.cpp)''\<rparr>)
         | Some e \<Rightarrow>
             (let ext = map toLower e
              in if ext \<notin> set allowedExts
                 then stop (ui\<lparr>editingError :=
                                 ''Unsupported extension '' @ [CHR 0x27] @ ''.'' @ ext @
                                 [CHR 0x27] @ ''.''\<rparr>)
                 else case findTab tabId (tabs st) of
                   None \<Rightarrow> stop (handleCancelInlineRename ui)
                 | Some t \<Rightarrow>
                     (let oldPath = pathOrName t
                      in case renameFile oldPath trimmed of
                           Renamed newPath \<Rightarrow>
                             (let np = js_or newPath None
                              in \<lparr>r_store = renameTab tabId trimmed np st,
                                  r_ui = handleCancelInlineRename ui,
                                  r_remoteCalls = [(oldPath, trimmed)],
                                  r_renameTabCalls = [(tabId, trimmed, np)],
                                  r_events = [''project-structure-changed'']\<rparr>)
                         | RenameRejected err \<Rightarrow>
                             \<lparr>r_store = st,
                              r_ui = ui\<lparr>editingError := errorText err\<rparr>,
                              r_remoteCalls = [(oldPath, trimmed)],
                              r_renameTabCalls = [], r_events = []\<rparr>)))"

text \<open>
  What the tab bar renders of a tab (the JSX of the tab list): the input holding
  \<^verbatim>\<open>editingValue\<close> while that tab is being renamed, else the tab's name; then the dot for
  unsaved changes. Nothing else of the inline rename reaches the page: the component reads
  \<^verbatim>\<open>editingError\<close> nowhere.
\<close>

datatype tabLabel = RenameInput string | NameSpan string

definition renderTab :: "renameUi \<Rightarrow> store \<Rightarrow> tab \<Rightarrow> tabLabel \<times> bool" where
  "renderTab ui st t =
     (if editingTabId ui = Some (tab_id t) then RenameInput (editingValue ui)
      else NameSpan (name t),
      unsavedFiles st (tab_id t) = Some True)"

definition renderTabs :: "renameUi \<Rightarrow> store \<Rightarrow> (tabLabel \<times> bool) list" where
  "renderTabs ui st = map (renderTab ui st) (tabs st)"

section \<open>Autosave (\<^verbatim>\<open>tick\<close>)\<close>








section \<open>The invariant of the Tab Store\<close>

text \<open>
  What every operation keeps: there is a tab, the ids are pairwise different, the active
  id is the id of a tab, and every id was made from a counter value that
  \<^verbatim>\<open>nextTabCounter\<close> has reached (so the next id is new).
\<close>

definition tabsOk :: "tab list \<Rightarrow> string \<Rightarrow> nat \<Rightarrow> bool" where
  "tabsOk ts a c =
     (ts \<noteq> [] \<and> distinct (map tab_id ts) \<and> a \<in> tab_id ` set ts \<and>
      (\<forall>t\<in>set ts. \<exists>k\<le>c. tab_id t = mkTabId k))"

definition tabsInv :: "store \<Rightarrow> bool" where
  "tabsInv st = tabsOk (tabs st) (activeTabId st) (nextTabCounter st)"

section \<open>A session to run the definitions on\<close>

text \<open>The scenario of the specification: this client is \<open>A\<close>, its only tab is
  \<^verbatim>\<open>main.py\<close>, nothing has been applied yet, and client \<open>B\<close> sends edits.\<close>

definition mainTab :: tab where
  "mainTab = \<lparr>tab_id = ''tab-1'', name = ''main.py'', content = [], isCustomName = False,
               tab_languageId = Some 71, path = None\<rparr>"

definition mainStore :: store where
  "mainStore = \<lparr>tabs = [mainTab], activeTabId = ''tab-1'', nextTabCounter = 1, source = [],
                 languageId = 71, leaderboardTick = 0, unsavedFiles = Map.empty,
                 isSaving = False, saveStatus = None\<rparr>"

definition marker0 :: marker where
  "marker0 = \<lparr>mk_filePath = None, mk_timestamp = 0\<rparr>"

definition editB :: "string \<Rightarrow> int \<Rightarrow> editMsg" where
  "editB c t = \<lparr>filePath = ''main.py'', msg_content = c, clientId = ''B'', timestamp = t\<rparr>"

text \<open>The same client with a second tab, a copy of the first.\<close>

definition copyTab :: tab where
  "copyTab = \<lparr>tab_id = ''tab-2'', name = ''main.py Copy'', content = ''print(1)'',
               isCustomName = True, tab_languageId = Some 71, path = None\<rparr>"

definition twoTabs :: store where
  "twoTabs = mainStore\<lparr>tabs := [mainTab, copyTab], nextTabCounter := 2\<rparr>"



text \<open>The second tab selected: what \<^verbatim>\<open>selectTab("tab-2")\<close> makes of \<open>twoTabs\<close>.\<close>

definition switched :: store where
  "switched = twoTabs\<lparr>activeTabId := ''tab-2'', source := ''print(1)''\<rparr>"

text \<open>A socket that is still connecting, with the subscription effect not yet run, and
  an open socket; a debouncer with no timer set.\<close>

definition connecting :: subscription where
  "connecting =
     \<lparr>wsRef = Some \<lparr>readyState = CONNECTING, openListeners = [], sent = []\<rparr>,
      cleanup = None\<rparr>"




text \<open>An inline rename of the first tab in progress, a server that refuses with a
  message, and an active tab with unsaved changes.\<close>

definition renaming :: "string \<Rightarrow> renameUi" where
  "renaming v = \<lparr>editingTabId = Some ''tab-1'', editingValue = v, editingError = []\<rparr>"

definition serverSays :: "string \<Rightarrow> remoteError" where
  "serverSays e =
     \<lparr>responseError = Some e, message = Some ''Request failed with status code 409'',
      asString = ''AxiosError: Request failed with status code 409''\<rparr>"


text \<open>The names the rename handler refuses before it calls the server.\<close>

definition invalidName :: "string \<Rightarrow> bool" where
  "invalidName v =
     (trim v = [] \<or>
      (case extOf (trim v) of
         None \<Rightarrow> True
       | Some e \<Rightarrow> map toLower e \<notin> set allowedExts))"

section \<open>Decimal numerals are injective; the naming loop terminates\<close>

lemma digit_char_inj:
  "a < 10 \<Longrightarrow> b < 10 \<Longrightarrow> digit_char a = digit_char b \<Longrightarrow> a = b"
proof -
  have e: "\<And>n::nat. n < 10 \<Longrightarrow> n \<in> {0,1,2,3,4,5,6,7,8,9}" by auto
  assume "a < 10" "b < 10" "digit_char a = digit_char b"
  with e[of a] e[of b] show ?thesis
    by (auto simp: digit_char_def)
qed

lemma num_to_string_nonempty: "num_to_string n \<noteq> []"
  by (subst num_to_string.simps) simp

lemma num_to_string_inj: "num_to_string n = num_to_string m \<Longrightarrow> n = m"
proof (induction n arbitrary: m rule: num_to_string.induct)
  case (1 n)
  show ?case
  proof (cases "n < 10")
    case True
    then have a: "num_to_string n = [digit_char n]" by (subst num_to_string.simps) simp
    show ?thesis
    proof (cases "m < 10")
      case mt: True
      then have "num_to_string m = [digit_char m]" by (subst num_to_string.simps) simp
      with a "1.prems" True mt show ?thesis by (auto dest: digit_char_inj)
    next
      case mf: False
      then have "num_to_string m = num_to_string (m div 10) @ [digit_char (m mod 10)]"
        by (subst num_to_string.simps) simp
      with a "1.prems" num_to_string_nonempty[of "m div 10"] show ?thesis by auto
    qed
  next
    case False
    then have a: "num_to_string n = num_to_string (n div 10) @ [digit_char (n mod 10)]"
      by (subst num_to_string.simps) simp
    show ?thesis
    proof (cases "m < 10")
      case mt: True
      then have "num_to_string m = [digit_char m]" by (subst num_to_string.simps) simp
      with a "1.prems" num_to_string_nonempty[of "n div 10"] show ?thesis by auto
    next
      case mf: False
      then have "num_to_string m = num_to_string (m div 10) @ [digit_char (m mod 10)]"
        by (subst num_to_string.simps) simp
      with a "1.prems" have e: "num_to_string (n div 10) = num_to_string (m div 10)"
        and d: "digit_char (n mod 10) = digit_char (m mod 10)" by auto
      from "1.IH"[OF False e] have q: "n div 10 = m div 10" .
      have r: "n mod 10 = m mod 10" by (rule digit_char_inj[OF _ _ d]) simp_all
      from q r show ?thesis by (metis div_mult_mod_eq)
    qed
  qed
qed

lemma copyName_inj: "copyName b n = copyName b m \<Longrightarrow> n = m"
  by (simp add: copyName_def num_to_string_inj)

lemma finite_copy_indices: "finite {k. copyName b k \<in> set taken}"
proof -
  have "inj (copyName b)" by (auto simp: inj_def dest: copyName_inj)
  then have "finite (copyName b -` set taken)" by (intro finite_vimageI) auto
  then show ?thesis by (simp add: vimage_def)
qed

termination copyLoop
proof (relation "measure (\<lambda>(b, taken, counter, candidate).
          card {k. counter < k \<and> copyName b k \<in> set taken}
          + (if candidate \<in> set taken then 1 else 0))")
  show "wf (measure (\<lambda>(b, taken, counter, candidate).
          card {k. counter < k \<and> copyName b k \<in> set taken}
          + (if candidate \<in> set taken then 1 else 0)))" by simp
next
  fix safeBase :: string and taken counter and candidate :: string
  assume c: "candidate \<in> set taken"
  let ?A = "{k. counter < k \<and> copyName safeBase k \<in> set taken}"
  let ?B = "{k. counter + 1 < k \<and> copyName safeBase k \<in> set taken}"
  have fin: "finite ?A" using finite_copy_indices[of safeBase taken] by (rule rev_finite_subset) auto
  have "card ?B + (if copyName safeBase (counter + 1) \<in> set taken then 1 else 0) = card ?A"
  proof (cases "copyName safeBase (counter + 1) \<in> set taken")
    case True
    then have "?A = insert (counter + 1) ?B" by (auto simp: less_Suc_eq Suc_lessI)
    moreover have "counter + 1 \<notin> ?B" by simp
    moreover have "finite ?B" using fin by (rule rev_finite_subset) auto
    ultimately show ?thesis using True by simp
  next
    case False
    then have "?A = ?B" by (auto simp: less_Suc_eq) (metis Suc_lessI)
    then show ?thesis using False by simp
  qed
  with c show "((safeBase, taken, counter + 1, copyName safeBase (counter + 1)),
          (safeBase, taken, counter, candidate)) \<in> measure (\<lambda>(b, taken, counter, candidate).
          card {k. counter < k \<and> copyName b k \<in> set taken}
          + (if candidate \<in> set taken then 1 else 0))" by simp
qed

declare copyLoop.simps [simp del]

section \<open>Inbound edits: staleness, own echoes, inactive files\<close>

lemma collabKey_activePath:
  "collabKey st = Some k \<longleftrightarrow> activePath st = Some k \<and> k \<noteq> []"
  by (auto simp: collabKey_def truthy_def split: option.splits)

text \<open>With a tab active whose name is not empty, the key is the tab's path, or its name
  when the path is absent or empty.\<close>

lemma collabKey_named:
  assumes "findTab (activeTabId st) (tabs st) = Some t" and "name t \<noteq> []"
  shows "collabKey st = Some (pathOrName t)"
  using assms
  by (simp add: collabKey_def activePath_def pathOrName_def js_or_def truthy_def
      split: option.splits)

lemma onEdit_other:
  assumes "collabKey st = Some (filePath m)" and "clientId m \<noteq> CLIENT_ID"
  shows "onEdit CLIENT_ID m (st, mk) =
     (if mk_timestamp mk < timestamp m
      then (setSource (msg_content m) (updateTabContent (activeTabId st) (msg_content m) st),
            \<lparr>mk_filePath = Some (filePath m), mk_timestamp = timestamp m\<rparr>)
      else (st, mk))"
  using assms by (simp add: onEdit_def collabKey_activePath truthy_def)

lemma findTab_update:
  "findTab i (map (\<lambda>t. if tab_id t = j then t\<lparr>content := c\<rparr> else t) ts) =
   map_option (\<lambda>t. if tab_id t = j then t\<lparr>content := c\<rparr> else t) (findTab i ts)"
  by (induction ts) (auto simp: findTab_def)

text \<open>
  Claim C1. An edit from another client whose \<^verbatim>\<open>filePath\<close> is the active tab's
  collaboration key (a path or name that is not empty; see \<open>collabKey_named\<close>) is applied
  exactly when its timestamp is strictly greater than the
  timestamp of the last-applied-remote marker: then the active tab's content and the
  source buffer become the message's content and the marker becomes the message's
  \<^verbatim>\<open>{filePath, timestamp}\<close>; otherwise store and marker stay as they are. Once such a
  message is applied, every message for the same path with a smaller timestamp that is
  delivered after it changes nothing, so the content stays at the newer value.
\<close>

theorem stale_remote_edit_rejected:
  assumes "collabKey st = Some (filePath m)" and "clientId m \<noteq> CLIENT_ID"
  shows "onMessage CLIENT_ID (Edit m) (st, mk) =
           (if mk_timestamp mk < timestamp m
            then (setSource (msg_content m)
                    (updateTabContent (activeTabId st) (msg_content m) st),
                  \<lparr>mk_filePath = Some (filePath m), mk_timestamp = timestamp m\<rparr>)
            else (st, mk))
         \<and> (mk_timestamp mk < timestamp m \<longrightarrow>
              map_option content
                (findTab (activeTabId st)
                   (tabs (fst (onMessage CLIENT_ID (Edit m) (st, mk))))) = Some (msg_content m)
              \<and> source (fst (onMessage CLIENT_ID (Edit m) (st, mk))) = msg_content m
              \<and> (\<forall>m1. filePath m1 = filePath m \<and> timestamp m1 < timestamp m \<longrightarrow>
                    onMessage CLIENT_ID (Edit m1) (onMessage CLIENT_ID (Edit m) (st, mk)) =
                    onMessage CLIENT_ID (Edit m) (st, mk)))"
proof -
  let ?st' = "setSource (msg_content m) (updateTabContent (activeTabId st) (msg_content m) st)"
  let ?mk' = "\<lparr>mk_filePath = Some (filePath m), mk_timestamp = timestamp m\<rparr>"
  have eq: "onMessage CLIENT_ID (Edit m) (st, mk) =
      (if mk_timestamp mk < timestamp m then (?st', ?mk') else (st, mk))"
    using assms by (simp add: onMessage_def onEdit_other)
  from assms(1) obtain t where t: "findTab (activeTabId st) (tabs st) = Some t"
    by (auto simp: collabKey_activePath activePath_def split: option.splits)
  then have tid: "tab_id t = activeTabId st"
    by (auto simp: findTab_def find_Some_iff)
  have c: "map_option content (findTab (activeTabId st) (tabs ?st')) = Some (msg_content m)"
    using t tid by (simp add: setSource_def updateTabContent_def findTab_update)
  have s: "source ?st' = msg_content m" by (simp add: setSource_def)
  have stale: "onMessage CLIENT_ID (Edit m1) (?st', ?mk') = (?st', ?mk')"
    if "filePath m1 = filePath m" "timestamp m1 < timestamp m" for m1
    using that by (simp add: onMessage_def onEdit_def Let_def)
  show ?thesis using eq c s stale by simp
qed

theorem stale_remote_edit_rejected_witness:
  "collabKey mainStore = Some (filePath (editB ''x=1'' 1000))
   \<and> clientId (editB ''x=1'' 1000) \<noteq> ''A''
   \<and> mk_timestamp marker0 < timestamp (editB ''x=1'' 1000)
   \<and> onMessage ''A'' (Edit (editB ''x=1'' 1000)) (mainStore, marker0) =
       (mainStore\<lparr>tabs := [mainTab\<lparr>content := ''x=1''\<rparr>], source := ''x=1''\<rparr>,
        \<lparr>mk_filePath = Some ''main.py'', mk_timestamp = 1000\<rparr>)
   \<and> filePath (editB ''x=2'' 500) = filePath (editB ''x=1'' 1000)
   \<and> timestamp (editB ''x=2'' 500) < timestamp (editB ''x=1'' 1000)
   \<and> onMessage ''A'' (Edit (editB ''x=2'' 500))
        (onMessage ''A'' (Edit (editB ''x=1'' 1000)) (mainStore, marker0)) =
       (mainStore\<lparr>tabs := [mainTab\<lparr>content := ''x=1''\<rparr>], source := ''x=1''\<rparr>,
        \<lparr>mk_filePath = Some ''main.py'', mk_timestamp = 1000\<rparr>)"
proof -
  have k: "collabKey mainStore = Some (filePath (editB ''x=1'' 1000))"
    by (simp add: collabKey_def activePath_def findTab_def mainStore_def mainTab_def
        editB_def js_or_def truthy_def)
  have o: "clientId (editB ''x=1'' 1000) \<noteq> ''A''" by (simp add: editB_def)
  have n: "mk_timestamp marker0 < timestamp (editB ''x=1'' 1000)"
    by (simp add: marker0_def editB_def)
  have p: "filePath (editB ''x=2'' 500) = filePath (editB ''x=1'' 1000) \<and>
           timestamp (editB ''x=2'' 500) < timestamp (editB ''x=1'' 1000)"
    by (simp add: editB_def)
  note th = stale_remote_edit_rejected [OF k o, of marker0]
  have a: "onMessage ''A'' (Edit (editB ''x=1'' 1000)) (mainStore, marker0) =
       (mainStore\<lparr>tabs := [mainTab\<lparr>content := ''x=1''\<rparr>], source := ''x=1''\<rparr>,
        \<lparr>mk_filePath = Some ''main.py'', mk_timestamp = 1000\<rparr>)"
    using th n by (simp add: setSource_def updateTabContent_def mainStore_def mainTab_def editB_def)
  from th n p have "onMessage ''A'' (Edit (editB ''x=2'' 500))
        (onMessage ''A'' (Edit (editB ''x=1'' 1000)) (mainStore, marker0)) =
        onMessage ''A'' (Edit (editB ''x=1'' 1000)) (mainStore, marker0)" by blast
  with a k o n p show ?thesis by simp
qed

text \<open>
  Claim C2. An edit whose \<^verbatim>\<open>clientId\<close> is this client's own identifier changes neither the
  Tab Store, nor the source buffer, nor the last-applied-remote marker, whatever its
  timestamp and \<^verbatim>\<open>filePath\<close> are.
\<close>

theorem own_echo_ignored:
  "clientId m = CLIENT_ID \<Longrightarrow> onMessage CLIENT_ID (Edit m) (st, mk) = (st, mk)"
  by (simp add: onMessage_def onEdit_def)

theorem own_echo_ignored_witness:
  "clientId ((editB ''x=9'' 5000)\<lparr>clientId := ''A''\<rparr>) = ''A'' \<and>
   onMessage ''A'' (Edit ((editB ''x=9'' 5000)\<lparr>clientId := ''A''\<rparr>)) (mainStore, marker0) =
     (mainStore, marker0)"
  using own_echo_ignored [of "(editB ''x=9'' 5000)\<lparr>clientId := ''A''\<rparr>" "''A''" mainStore marker0]
  by (simp add: editB_def)

text \<open>
  Claim C3. An edit whose \<^verbatim>\<open>filePath\<close> is not the active tab's collaboration key (the
  tab's path, or its name when the path is absent) leaves the list of tabs as it is, so
  every tab keeps its id, name, path, content, languageId and isCustomName, and leaves the
  source buffer as it is; indeed the whole store and the marker are unchanged.
\<close>

theorem inactive_file_edit_ignored:
  assumes "collabKey st \<noteq> Some (filePath m)"
  shows "tabs (fst (onMessage CLIENT_ID (Edit m) (st, mk))) = tabs st
       \<and> source (fst (onMessage CLIENT_ID (Edit m) (st, mk))) = source st
       \<and> onMessage CLIENT_ID (Edit m) (st, mk) = (st, mk)"
proof -
  have "onMessage CLIENT_ID (Edit m) (st, mk) = (st, mk)"
    using assms by (auto simp: onMessage_def onEdit_def collabKey_def)
  then show ?thesis by simp
qed

theorem inactive_file_edit_ignored_witness:
  "collabKey mainStore \<noteq> Some (filePath ((editB ''x=9'' 5000)\<lparr>filePath := ''util.py''\<rparr>)) \<and>
   tabs (fst (onMessage ''A'' (Edit ((editB ''x=9'' 5000)\<lparr>filePath := ''util.py''\<rparr>))
                (mainStore, marker0))) = [mainTab] \<and>
   source (fst (onMessage ''A'' (Edit ((editB ''x=9'' 5000)\<lparr>filePath := ''util.py''\<rparr>))
                (mainStore, marker0))) = []"
proof -
  have k: "collabKey mainStore \<noteq> Some (filePath ((editB ''x=9'' 5000)\<lparr>filePath := ''util.py''\<rparr>))"
    by (simp add: collabKey_def activePath_def findTab_def mainStore_def mainTab_def
        editB_def js_or_def truthy_def)
  from inactive_file_edit_ignored [OF k, of "''A''" marker0] k show ?thesis
    by (simp add: mainStore_def)
qed

section \<open>duplicateTab: the name of the copy\<close>

lemma copyLoop_fresh: "copyLoop b taken c cand \<notin> set taken"
proof (induction b taken c cand rule: copyLoop.induct)
  case (1 b taken c cand)
  show ?case
  proof (cases "cand \<in> set taken")
    case True
    with "1.IH" show ?thesis by (subst copyLoop.simps) simp
  next
    case False
    then show ?thesis by (subst copyLoop.simps) simp
  qed
qed

lemma copyLoop_shape:
  "copyLoop b taken c cand = cand \<and> cand \<notin> set taken \<or>
   (\<exists>N>c. copyLoop b taken c cand = copyName b N \<and> cand \<in> set taken \<and>
      (\<forall>k. c < k \<and> k < N \<longrightarrow> copyName b k \<in> set taken))"
proof (induction b taken c cand rule: copyLoop.induct)
  case (1 b taken c cand)
  show ?case
  proof (cases "cand \<in> set taken")
    case False
    then have "copyLoop b taken c cand = cand" by (subst copyLoop.simps) simp
    with False show ?thesis by simp
  next
    case True
    then have u: "copyLoop b taken c cand = copyLoop b taken (c + 1) (copyName b (c + 1))"
      by (subst copyLoop.simps) simp
    from "1.IH"[OF True] show ?thesis
    proof
      assume a: "copyLoop b taken (c + 1) (copyName b (c + 1)) = copyName b (c + 1) \<and>
         copyName b (c + 1) \<notin> set taken"
      have "c < c + 1 \<and> copyLoop b taken c cand = copyName b (c + 1) \<and> cand \<in> set taken \<and>
        (\<forall>k. c < k \<and> k < c + 1 \<longrightarrow> copyName b k \<in> set taken)"
        using a u True by (auto simp: less_Suc_eq)
      then show ?thesis by blast
    next
      assume "\<exists>N>c + 1. copyLoop b taken (c + 1) (copyName b (c + 1)) = copyName b N \<and>
        copyName b (c + 1) \<in> set taken \<and>
        (\<forall>k. c + 1 < k \<and> k < N \<longrightarrow> copyName b k \<in> set taken)"
      then obtain N where N: "c + 1 < N"
        "copyLoop b taken (c + 1) (copyName b (c + 1)) = copyName b N"
        "copyName b (c + 1) \<in> set taken"
        "\<forall>k. c + 1 < k \<and> k < N \<longrightarrow> copyName b k \<in> set taken" by blast
      have "\<forall>k. c < k \<and> k < N \<longrightarrow> copyName b k \<in> set taken"
      proof (intro allI impI)
        fix k assume "c < k \<and> k < N"
        then have "k = c + 1 \<or> (c + 1 < k \<and> k < N)" by arith
        with N(3,4) show "copyName b k \<in> set taken" by auto
      qed
      with N u True have "c < N \<and> copyLoop b taken c cand = copyName b N \<and> cand \<in> set taken \<and>
        (\<forall>k. c < k \<and> k < N \<longrightarrow> copyName b k \<in> set taken)" by simp
      then show ?thesis by blast
    qed
  qed
qed

lemma stripCopy_id: "(\<forall>j. \<not> copySuffix (drop j s)) \<Longrightarrow> stripCopy s = s"
proof (induction s)
  case Nil
  then show ?case by simp
next
  case (Cons c cs)
  from Cons.prems have a: "\<not> copySuffix (c # cs)" by (metis drop0)
  have "\<forall>j. \<not> copySuffix (drop j cs)"
  proof
    fix j from Cons.prems have "\<not> copySuffix (drop (Suc j) (c # cs))" by blast
    then show "\<not> copySuffix (drop j cs)" by simp
  qed
  with Cons.IH a show ?case by simp
qed



lemma findTab_mem: "findTab i ts = Some t \<Longrightarrow> t \<in> set ts \<and> tab_id t = i"
  by (auto simp: findTab_def find_Some_iff)

lemma duplicateTab_found:
  assumes "findTab i (tabs st) = Some orig"
  shows "duplicateTab i st =
     st\<lparr>tabs := tabs st @ [\<lparr>tab_id = mkTabId (nextTabCounter st + 1),
              name = copyLoop (safeBase orig) (map name (tabs st)) 1 (safeBase orig @ '' Copy''),
              content = content orig, isCustomName = True,
              tab_languageId = Some (tabLang orig st), path = None\<rparr>],
         activeTabId := mkTabId (nextTabCounter st + 1),
         nextTabCounter := nextTabCounter st + 1, source := content orig,
         languageId := tabLang orig st, leaderboardTick := leaderboardTick st + 1\<rparr>"
  using assms by (simp add: duplicateTab_def Let_def)

text \<open>
  Claim C7. Duplicating an open tab appends one new tab whose name is the name of no
  current tab. The name is the base followed by \<open>'' Copy''\<close> when that is free, and
  otherwise the base followed by \<open>'' Copy N''\<close> for the least \<open>N\<close> from 2 on that is free
  (\<open>'' Copy''\<close> and every smaller \<open>N\<close> being taken). The base is the tab's name whenever
  no part of the name from some index to its end has the shape of a copy suffix. In
  particular, with a tab \<^verbatim>\<open>main.py Copy\<close> open (and no \<^verbatim>\<open>main.py Copy 2\<close>), duplicating
  \<^verbatim>\<open>main.py\<close> gives \<^verbatim>\<open>main.py Copy 2\<close>.
\<close>

theorem duplicate_name_fresh:
  assumes "findTab i (tabs st) = Some orig"
  shows "\<exists>new. tabs (duplicateTab i st) = tabs st @ [new]
     \<and> name new \<notin> name ` set (tabs st)
     \<and> (name new = safeBase orig @ '' Copy'' \<or>
        (\<exists>N\<ge>2. name new = safeBase orig @ '' Copy '' @ num_to_string N
           \<and> safeBase orig @ '' Copy'' \<in> name ` set (tabs st)
           \<and> (\<forall>k. 2 \<le> k \<and> k < N \<longrightarrow>
                  safeBase orig @ '' Copy '' @ num_to_string k \<in> name ` set (tabs st))))
     \<and> (name orig \<noteq> [] \<and> (\<forall>j. \<not> copySuffix (drop j (name orig))) \<longrightarrow>
          safeBase orig = name orig)
     \<and> (name orig = ''main.py'' \<and> ''main.py Copy'' \<in> name ` set (tabs st)
          \<and> ''main.py Copy 2'' \<notin> name ` set (tabs st) \<longrightarrow> name new = ''main.py Copy 2'')"
proof -
  let ?b = "safeBase orig" and ?taken = "map name (tabs st)"
  let ?n = "copyLoop ?b ?taken 1 (?b @ '' Copy'')"
  let ?new = "\<lparr>tab_id = mkTabId (nextTabCounter st + 1), name = ?n,
              content = content orig, isCustomName = True,
              tab_languageId = Some (tabLang orig st), path = None\<rparr>"
  have t: "tabs (duplicateTab i st) = tabs st @ [?new]"
    by (simp add: duplicateTab_found[OF assms])
  have f: "?n \<notin> name ` set (tabs st)"
    using copyLoop_fresh[of ?b ?taken 1 "?b @ '' Copy''"] by simp
  have sh: "?n = ?b @ '' Copy'' \<or>
        (\<exists>N\<ge>2. ?n = ?b @ '' Copy '' @ num_to_string N
           \<and> ?b @ '' Copy'' \<in> name ` set (tabs st)
           \<and> (\<forall>k. 2 \<le> k \<and> k < N \<longrightarrow> ?b @ '' Copy '' @ num_to_string k \<in> name ` set (tabs st)))"
    using copyLoop_shape[of ?b ?taken 1 "?b @ '' Copy''"]
  proof
    assume "?n = ?b @ '' Copy'' \<and> ?b @ '' Copy'' \<notin> set ?taken"
    then show ?thesis by simp
  next
    assume "\<exists>N>1. ?n = copyName ?b N \<and> ?b @ '' Copy'' \<in> set ?taken \<and>
       (\<forall>k. 1 < k \<and> k < N \<longrightarrow> copyName ?b k \<in> set ?taken)"
    then obtain N where N: "1 < N" "?n = copyName ?b N" "?b @ '' Copy'' \<in> set ?taken"
      "\<forall>k. 1 < k \<and> k < N \<longrightarrow> copyName ?b k \<in> set ?taken" by blast
    have "2 \<le> N \<and> ?n = ?b @ '' Copy '' @ num_to_string N
           \<and> ?b @ '' Copy'' \<in> name ` set (tabs st)
           \<and> (\<forall>k. 2 \<le> k \<and> k < N \<longrightarrow> ?b @ '' Copy '' @ num_to_string k \<in> name ` set (tabs st))"
      using N by (auto simp: copyName_def)
    then show ?thesis by blast
  qed
  have b: "safeBase orig = name orig"
    if "name orig \<noteq> []" "\<forall>j. \<not> copySuffix (drop j (name orig))"
    using that by (simp add: safeBase_def stripCopy_id)
  have ex: "?n = ''main.py Copy 2''"
    if "name orig = ''main.py''" "''main.py Copy'' \<in> name ` set (tabs st)"
       "''main.py Copy 2'' \<notin> name ` set (tabs st)"
  proof -
    have "safeBase orig = ''main.py''" using that(1)
      by (simp add: safeBase_def copySuffix_def)
    moreover have "copyName ''main.py'' 2 = ''main.py Copy 2''"
      by (simp add: copyName_def num_to_string.simps digit_char_def)
    moreover have "copyLoop ''main.py'' ?taken 1 ''main.py Copy'' =
        copyLoop ''main.py'' ?taken 2 (copyName ''main.py'' 2)"
    proof -
      have "copyLoop ''main.py'' ?taken 1 ''main.py Copy'' =
        copyLoop ''main.py'' ?taken (1 + 1) (copyName ''main.py'' (1 + 1))"
        using that(2) by (subst copyLoop.simps) simp
      then show ?thesis by (simp only: one_add_one)
    qed
    moreover have "copyLoop ''main.py'' ?taken 2 ''main.py Copy 2'' = ''main.py Copy 2''"
      using that(3) by (subst copyLoop.simps) simp
    ultimately show ?thesis by simp
  qed
  show ?thesis
    apply (rule exI[of _ ?new])
    using t f sh b ex by simp
qed

theorem duplicate_name_fresh_witness:
  "findTab ''tab-1'' (tabs twoTabs) = Some mainTab \<and>
   map name (tabs twoTabs) = [''main.py'', ''main.py Copy''] \<and>
   map name (tabs (duplicateTab ''tab-1'' twoTabs)) =
     [''main.py'', ''main.py Copy'', ''main.py Copy 2'']"
proof -
  have f: "findTab ''tab-1'' (tabs twoTabs) = Some mainTab"
    by (simp add: findTab_def twoTabs_def mainStore_def mainTab_def copyTab_def)
  have n: "map name (tabs twoTabs) = [''main.py'', ''main.py Copy'']"
    by (simp add: twoTabs_def mainStore_def mainTab_def copyTab_def)
  from duplicate_name_fresh [OF f] obtain new where
    t: "tabs (duplicateTab ''tab-1'' twoTabs) = tabs twoTabs @ [new]" and
    e: "name mainTab = ''main.py'' \<and> ''main.py Copy'' \<in> name ` set (tabs twoTabs) \<and>
        ''main.py Copy 2'' \<notin> name ` set (tabs twoTabs) \<longrightarrow> name new = ''main.py Copy 2''"
    by blast
  have "name mainTab = ''main.py''" by (simp add: mainTab_def)
  moreover have "name ` set (tabs twoTabs) = {''main.py'', ''main.py Copy''}"
    using n by (metis image_set list.simps(15) empty_set)
  ultimately have "name new = ''main.py Copy 2''" using e by simp
  with t n f show ?thesis by simp
qed









section \<open>The Tab Store keeps its invariant\<close>

lemma mkTabId_inj: "mkTabId a = mkTabId b \<Longrightarrow> a = b"
  by (simp add: mkTabId_def num_to_string_inj)

lemma mkTabId_1: "mkTabId 1 = ''tab-1''"
  by (simp add: mkTabId_def num_to_string.simps digit_char_def)

lemma nth_opt_eq: "nth_opt xs i = (if i < length xs then Some (xs ! i) else None)"
  by (induction xs i rule: nth_opt.induct) auto

lemma findIndex_none: "\<forall>x\<in>set xs. \<not> P x \<Longrightarrow> findIndex P xs = -1"
  by (induction xs) auto

lemma findIndex_neg: "findIndex P xs < 0 \<longleftrightarrow> (\<forall>x\<in>set xs. \<not> P x)"
  by (induction xs) (auto simp: Let_def)

lemma findIndex_less: "findIndex P xs < int (length xs)"
  by (induction xs) (auto simp: Let_def)

lemma findIndex_some:
  "\<exists>x\<in>set xs. P x \<Longrightarrow> 0 \<le> findIndex P xs \<and> findIndex P xs < int (length xs)"
  using findIndex_neg[of P xs] findIndex_less[of P xs] by auto

lemma findTab_None: "findTab i ts = None \<longleftrightarrow> i \<notin> tab_id ` set ts"
  by (auto simp: findTab_def find_None_iff)

lemma findOrFirst_mem: "findOrFirst i ts = Some t \<Longrightarrow> t \<in> set ts"
  by (cases ts) (auto simp: findOrFirst_def dest: findTab_mem split: option.splits)

lemma findOrFirst_some: "ts \<noteq> [] \<Longrightarrow> \<exists>t. findOrFirst i ts = Some t"
  by (cases ts) (auto simp: findOrFirst_def split: option.splits)

lemma tabsOk_append:
  assumes "tabsOk ts a c" and "tab_id n = mkTabId (Suc c)"
  shows "tabsOk (ts @ [n]) (mkTabId (Suc c)) (Suc c)"
proof -
  have "mkTabId (Suc c) \<notin> tab_id ` set ts"
  proof
    assume "mkTabId (Suc c) \<in> tab_id ` set ts"
    then obtain t where "t \<in> set ts" "tab_id t = mkTabId (Suc c)" by auto
    with assms(1) obtain k where "k \<le> c" "mkTabId k = mkTabId (Suc c)"
      by (fastforce simp: tabsOk_def)
    then show False by (auto dest: mkTabId_inj)
  qed
  moreover have "\<forall>t\<in>set ts. \<exists>k\<le>Suc c. tab_id t = mkTabId k"
    using assms(1) by (auto simp: tabsOk_def) (metis le_Suc_eq)
  ultimately show ?thesis using assms by (auto simp: tabsOk_def)
qed

lemma tabsOk_map:
  "tabsOk ts a c \<Longrightarrow> \<forall>t. tab_id (f t) = tab_id t \<Longrightarrow> tabsOk (map f ts) a c"
  by (auto simp: tabsOk_def comp_def image_iff)

lemma tabsOk_select: "tabsOk ts a c \<Longrightarrow> t \<in> set ts \<Longrightarrow> tabsOk ts (tab_id t) c"
  by (auto simp: tabsOk_def)

lemma tabsOk_single: "tabsOk ts a c \<Longrightarrow> t \<in> set ts \<Longrightarrow> tabsOk [t] (tab_id t) c"
  by (auto simp: tabsOk_def)

lemma tabsOk_base: "tab_id t = ''tab-1'' \<Longrightarrow> tabsOk [t] ''tab-1'' 1"
  using mkTabId_1 by (auto simp: tabsOk_def intro: exI[of _ 1])

lemma tabsOk_filter:
  assumes "tabsOk ts a c" and "filter P ts \<noteq> []" and "b \<in> tab_id ` set (filter P ts)"
  shows "tabsOk (filter P ts) b c"
  using assms by (auto simp: tabsOk_def distinct_map_filter)

lemma addTab_inv:
  assumes "tabsInv st" shows "tabsInv (addTab dfn st)"
proof -
  from assms have "tabsOk (tabs st) (activeTabId st) (nextTabCounter st)"
    by (simp add: tabsInv_def)
  from tabsOk_append[OF this] show ?thesis
    by (simp add: tabsInv_def addTab_def Let_def)
qed

lemma createTab_inv:
  assumes "tabsInv st" shows "tabsInv (createTab dfn nm c cu p st)"
proof -
  from assms have "tabsOk (tabs st) (activeTabId st) (nextTabCounter st)"
    by (simp add: tabsInv_def)
  from tabsOk_append[OF this] show ?thesis
    by (simp add: tabsInv_def createTab_def Let_def)
qed

lemma duplicateTab_inv:
  assumes "tabsInv st" shows "tabsInv (duplicateTab i st)"
proof (cases "findTab i (tabs st)")
  case None
  with assms show ?thesis by (simp add: duplicateTab_def)
next
  case (Some orig)
  from assms have "tabsOk (tabs st) (activeTabId st) (nextTabCounter st)"
    by (simp add: tabsInv_def)
  from tabsOk_append[OF this] show ?thesis
    by (simp add: tabsInv_def duplicateTab_found[OF Some])
qed

lemma updateTabContent_inv:
  assumes "tabsInv st" shows "tabsInv (updateTabContent i c st)"
proof -
  from assms have "tabsOk (tabs st) (activeTabId st) (nextTabCounter st)"
    by (simp add: tabsInv_def)
  then have "tabsOk (map (\<lambda>t. if tab_id t = i then t\<lparr>content := c\<rparr> else t) (tabs st))
      (activeTabId st) (nextTabCounter st)"
    by (rule tabsOk_map) simp
  then show ?thesis by (simp add: tabsInv_def updateTabContent_def)
qed

lemma renameTab_inv:
  assumes "tabsInv st" shows "tabsInv (renameTab i n p st)"
proof -
  from assms have "tabsOk (tabs st) (activeTabId st) (nextTabCounter st)"
    by (simp add: tabsInv_def)
  then have "tabsOk (map (\<lambda>t. if tab_id t = i
        then t\<lparr>name := n, isCustomName := True,
               path := (case p of Some q \<Rightarrow> Some q | None \<Rightarrow> path t)\<rparr>
        else t) (tabs st)) (activeTabId st) (nextTabCounter st)"
    by (rule tabsOk_map) simp
  then show ?thesis by (simp add: tabsInv_def renameTab_def)
qed

lemma closeAll_inv: "tabsInv (closeAll dfn st)"
  using tabsOk_base[of "baseTab dfn st"]
  by (simp add: tabsInv_def closeAll_def baseTab_def)

lemma selectTab_inv:
  assumes "tabsInv st" shows "\<exists>st'. selectTab i st = Inr st' \<and> tabsInv st'"
proof -
  from assms have "tabs st \<noteq> []" by (simp add: tabsInv_def tabsOk_def)
  then obtain t where t: "findOrFirst i (tabs st) = Some t" using findOrFirst_some by blast
  with assms show ?thesis
    by (simp add: selectTab_def tabsInv_def tabsOk_select findOrFirst_mem)
qed

lemma closeOthers_inv:
  assumes "tabsInv st" shows "\<exists>st'. closeOthers i st = Inr st' \<and> tabsInv st'"
proof -
  from assms have "tabs st \<noteq> []" by (simp add: tabsInv_def tabsOk_def)
  then obtain t where t: "findOrFirst i (tabs st) = Some t" using findOrFirst_some by blast
  with assms show ?thesis
    by (simp add: closeOthers_def tabsInv_def tabsOk_single[OF _ findOrFirst_mem])
qed

lemma length_filter_other:
  "distinct (map f xs) \<Longrightarrow> a \<in> f ` set xs \<Longrightarrow>
   length (filter (\<lambda>t. f t \<noteq> a) xs) = length xs - 1"
proof (induction xs)
  case Nil
  then show ?case by simp
next
  case (Cons x xs)
  show ?case
  proof (cases "f x = a")
    case True
    with Cons.prems have "\<forall>t\<in>set xs. f t \<noteq> a" by (auto simp: image_iff)
    then have "filter (\<lambda>t. f t \<noteq> a) xs = xs" by (simp add: filter_id_conv)
    with True show ?thesis by simp
  next
    case False
    with Cons.prems have m: "a \<in> f ` set xs" and d: "distinct (map f xs)" by auto
    from m have "xs \<noteq> []" by auto
    then have "0 < length xs" by simp
    with Cons.IH[OF d m] False show ?thesis by simp
  qed
qed

text \<open>Removing an id that no tab has.\<close>

lemma removeTab_absent:
  assumes inv: "tabsInv st" and absent: "tabId \<notin> tab_id ` set (tabs st)"
  shows "\<exists>st'. removeTab tabId index st = Inr st' \<and> tabsInv st'"
proof -
  let ?next = "filter (\<lambda>t. tab_id t \<noteq> tabId) (tabs st)"
  have same: "?next = tabs st" using absent by (auto simp: filter_id_conv)
  from inv have act: "activeTabId st \<in> tab_id ` set (tabs st)" and ne: "tabs st \<noteq> []"
    by (simp_all add: tabsInv_def tabsOk_def)
  with absent have na: "tabId \<noteq> activeTabId st" by auto
  from ne obtain t where t: "findOrFirst (activeTabId st) (tabs st) = Some t"
    using findOrFirst_some by blast
  show ?thesis using inv na t same
    by (simp add: removeTab_def Let_def tabsInv_def)
qed

text \<open>Removing a tab that is there, when it is not the only one.\<close>

lemma removeTab_present:
  assumes inv: "tabsInv st" and present: "tabId \<in> tab_id ` set (tabs st)"
    and two: "2 \<le> length (tabs st)"
    and idx: "index = findIndex (\<lambda>t. tab_id t = tabId) (tabs st)"
  shows "\<exists>st'. removeTab tabId index st = Inr st' \<and> tabsInv st'"
proof -
  let ?next = "filter (\<lambda>t. tab_id t \<noteq> tabId) (tabs st)"
  let ?j = "nat (max (index - 1) 0)"
  from inv have ok: "tabsOk (tabs st) (activeTabId st) (nextTabCounter st)"
    by (simp add: tabsInv_def)
  then have dist: "distinct (map tab_id (tabs st))" by (simp add: tabsOk_def)
  have len: "length ?next = length (tabs st) - 1"
    using dist present by (rule length_filter_other)
  with two have ne: "?next \<noteq> []" by auto
  from present have "\<exists>x\<in>set (tabs st). tab_id x = tabId" by auto
  from findIndex_some[of "tabs st" "\<lambda>t. tab_id t = tabId", OF this] idx
  have "0 \<le> index" "index < int (length (tabs st))" by simp_all
  with two len have j: "?j < length ?next" by auto
  then have fb: "nth_opt ?next ?j = Some (?next ! ?j)" by (simp add: nth_opt_eq)
  have fbm: "?next ! ?j \<in> set ?next" using j by (rule nth_mem)
  show ?thesis
  proof (cases "tabId = activeTabId st")
    case True
    from ne obtain t where t: "findOrFirst (tab_id (?next ! ?j)) ?next = Some t"
      using findOrFirst_some by blast
    have "tabsOk ?next (tab_id (?next ! ?j)) (nextTabCounter st)"
      using ok ne fbm by (intro tabsOk_filter) auto
    with True fb t idx show ?thesis
      by (simp add: removeTab_def Let_def tabsInv_def)
  next
    case False
    from ne obtain t where t: "findOrFirst (activeTabId st) ?next = Some t"
      using findOrFirst_some by blast
    from ok have "activeTabId st \<in> tab_id ` set (tabs st)" by (simp add: tabsOk_def)
    with False have "activeTabId st \<in> tab_id ` set ?next" by auto
    with ok ne have "tabsOk ?next (activeTabId st) (nextTabCounter st)"
      by (intro tabsOk_filter) auto
    with False t show ?thesis
      by (simp add: removeTab_def Let_def tabsInv_def)
  qed
qed

lemma closeTab_inv:
  assumes "tabsInv st" shows "\<exists>st'. closeTab i st = Inr st' \<and> tabsInv st'"
proof (cases "length (tabs st) = 1")
  case True
  with assms show ?thesis by (simp add: closeTab_def)
next
  case False
  from assms have "tabs st \<noteq> []" by (simp add: tabsInv_def tabsOk_def)
  then have "length (tabs st) \<noteq> 0" by simp
  with False have two: "2 \<le> length (tabs st)" by arith
  show ?thesis
  proof (cases "i \<in> tab_id ` set (tabs st)")
    case True
    then have "\<exists>x\<in>set (tabs st). tab_id x = i" by auto
    from findIndex_some[of "tabs st" "\<lambda>t. tab_id t = i", OF this]
    have "findIndex (\<lambda>t. tab_id t = i) (tabs st) \<noteq> -1" by simp
    with False removeTab_present[OF assms True two refl] show ?thesis
      by (simp add: closeTab_def Let_def)
  next
    case nf: False
    then have "findIndex (\<lambda>t. tab_id t = i) (tabs st) = -1"
      by (intro findIndex_none) auto
    with False assms show ?thesis by (simp add: closeTab_def Let_def)
  qed
qed

lemma deleteTab_inv:
  assumes "tabsInv st" shows "\<exists>st'. deleteTab dfn i st = Inr st' \<and> tabsInv st'"
proof (cases "length (tabs st) = 1 \<and> tab_id (hd (tabs st)) = i")
  case True
  then show ?thesis by (simp add: deleteTab_def closeAll_inv)
next
  case False
  from assms have ne: "tabs st \<noteq> []" by (simp add: tabsInv_def tabsOk_def)
  show ?thesis
  proof (cases "i \<in> tab_id ` set (tabs st)")
    case True
    have "length (tabs st) \<noteq> 1"
    proof
      assume "length (tabs st) = 1"
      then obtain t where "tabs st = [t]" by (cases "tabs st") auto
      with True False show False by simp
    qed
    moreover from ne have "length (tabs st) \<noteq> 0" by simp
    ultimately have "2 \<le> length (tabs st)" by arith
    moreover have "deleteTab dfn i st =
        removeTab i (findIndex (\<lambda>t. tab_id t = i) (tabs st)) st"
      by (simp only: deleteTab_def False if_False)
    ultimately show ?thesis using removeTab_present[OF assms True _ refl] by simp
  next
    case nf: False
    have "deleteTab dfn i st =
        removeTab i (findIndex (\<lambda>t. tab_id t = i) (tabs st)) st"
      by (simp only: deleteTab_def False if_False)
    with removeTab_absent[OF assms nf] show ?thesis by simp
  qed
qed

lemma applyOp_inv:
  "tabsInv st \<Longrightarrow> \<exists>st'. applyOp dfn x st = Inr st' \<and> tabsInv st'"
  by (cases x)
     (simp_all add: addTab_inv createTab_inv selectTab_inv updateTabContent_inv renameTab_inv
        duplicateTab_inv closeTab_inv closeOthers_inv closeAll_inv deleteTab_inv)

lemma runOps_inv:
  "tabsInv st \<Longrightarrow> snd (runOps dfn ops st) = 0 \<and> tabsInv (fst (runOps dfn ops st))"
proof (induction ops arbitrary: st)
  case Nil
  then show ?case by simp
next
  case (Cons x xs)
  from applyOp_inv[OF Cons.prems, of dfn x] obtain st1 where
    "applyOp dfn x st = Inr st1" "tabsInv st1" by blast
  with Cons.IH[of st1] show ?case by simp
qed

lemma initial_inv: "initial st \<Longrightarrow> tabsInv st"
proof -
  assume i: "initial st"
  then obtain t where t: "tabs st = [t]" "tab_id t = ''tab-1''"
    by (cases "tabs st") (auto simp: initial_def)
  with i tabsOk_base[of t] show ?thesis by (simp add: tabsInv_def initial_def)
qed

lemma tabsInv_active: "tabsInv st \<Longrightarrow> tabs st \<noteq> [] \<and> findTab (activeTabId st) (tabs st) \<noteq> None"
  by (simp add: tabsInv_def tabsOk_def findTab_None)

text \<open>
  Claim C6. From the store as it is created, after every sequence of the operations
  addTab, createTab, selectTab, updateTabContent, renameTab, duplicateTab, closeTab,
  closeOthers, closeAll and deleteTab the store has at least one tab and
  \<^verbatim>\<open>activeTabId\<close> is the id of one of its tabs (and no call raised). On any store with a
  single tab \<^verbatim>\<open>closeTab\<close> returns the state unchanged, and \<^verbatim>\<open>deleteTab\<close> of that tab
  leaves exactly one tab, the fresh default one: id \<^verbatim>\<open>tab-1\<close>, the default name of the
  current language, empty content, no custom name, no path; it is active, the counter is 1
  and the source buffer is empty.
\<close>

theorem tab_store_never_empty:
  "(initial st \<longrightarrow>
      snd (runOps dfn ops st) = 0 \<and>
      tabs (fst (runOps dfn ops st)) \<noteq> [] \<and>
      findTab (activeTabId (fst (runOps dfn ops st))) (tabs (fst (runOps dfn ops st))) \<noteq> None)
   \<and> (length (tabs s) = 1 \<longrightarrow> closeTab i s = Inr s)
   \<and> (tabs s = [t] \<and> tab_id t = i \<longrightarrow>
        (\<exists>s'. deleteTab dfn i s = Inr s' \<and>
           tabs s' = [\<lparr>tab_id = ''tab-1'', name = dfn (languageId s), content = [],
                       isCustomName = False, tab_languageId = Some (languageId s),
                       path = None\<rparr>] \<and>
           activeTabId s' = ''tab-1'' \<and> nextTabCounter s' = 1 \<and> source s' = []))"
proof -
  have a: "snd (runOps dfn ops st) = 0 \<and>
      tabs (fst (runOps dfn ops st)) \<noteq> [] \<and>
      findTab (activeTabId (fst (runOps dfn ops st))) (tabs (fst (runOps dfn ops st))) \<noteq> None"
    if "initial st"
    using runOps_inv[OF initial_inv[OF that], of dfn ops] tabsInv_active by blast
  have b: "closeTab i s = Inr s" if "length (tabs s) = 1"
    using that by (simp add: closeTab_def)
  have c: "\<exists>s'. deleteTab dfn i s = Inr s' \<and>
           tabs s' = [\<lparr>tab_id = ''tab-1'', name = dfn (languageId s), content = [],
                       isCustomName = False, tab_languageId = Some (languageId s),
                       path = None\<rparr>] \<and>
           activeTabId s' = ''tab-1'' \<and> nextTabCounter s' = 1 \<and> source s' = []"
    if "tabs s = [t] \<and> tab_id t = i"
    using that by (simp add: deleteTab_def closeAll_def baseTab_def)
  from a b c show ?thesis by blast
qed


theorem tab_store_never_empty_witness:
  "initial mainStore \<and>
   snd (runOps (\<lambda>l. ''main.py'')
          [AddTab, DuplicateTab ''tab-1'', CloseTab ''tab-3'', DeleteTab ''tab-1'',
           DeleteTab ''tab-2'', CloseTab ''tab-1'', CloseOthers ''tab-9'', CloseAll]
          mainStore) = 0 \<and>
   tabs (fst (runOps (\<lambda>l. ''main.py'')
          [AddTab, DuplicateTab ''tab-1'', CloseTab ''tab-3'', DeleteTab ''tab-1'',
           DeleteTab ''tab-2'', CloseTab ''tab-1'', CloseOthers ''tab-9'', CloseAll]
          mainStore)) \<noteq> [] \<and>
   length (tabs mainStore) = 1 \<and> closeTab ''tab-1'' mainStore = Inr mainStore \<and>
   tabs mainStore = [mainTab] \<and> tab_id mainTab = ''tab-1'' \<and>
   (\<exists>s'. deleteTab (\<lambda>l. ''main.py'') ''tab-1'' mainStore = Inr s' \<and>
      tabs s' = [\<lparr>tab_id = ''tab-1'', name = ''main.py'', content = [],
                  isCustomName = False, tab_languageId = Some 71, path = None\<rparr>] \<and>
      activeTabId s' = ''tab-1'' \<and> nextTabCounter s' = 1 \<and> source s' = [])"
  using tab_store_never_empty [of mainStore "\<lambda>l. ''main.py''"
      "[AddTab, DuplicateTab ''tab-1'', CloseTab ''tab-3'', DeleteTab ''tab-1'',
        DeleteTab ''tab-2'', CloseTab ''tab-1'', CloseOthers ''tab-9'', CloseAll]"
      mainStore "''tab-1''" mainTab]
  by (simp add: initial_def mainStore_def mainTab_def)

section \<open>Subscriptions and debounced publishing\<close>

lemma twoTabs_key: "activePath twoTabs = Some ''main.py''"
  by (simp add: activePath_def findTab_def twoTabs_def mainStore_def mainTab_def copyTab_def
      js_or_def truthy_def)

lemma switched_key: "activePath switched = Some ''main.py Copy''"
  by (simp add: activePath_def findTab_def switched_def twoTabs_def mainStore_def mainTab_def
      copyTab_def js_or_def truthy_def)

text \<open>
  Claim C4 says that at most one file is subscribed at any time, also when the active tab
  changes before the channel has opened: every subscribe is preceded by an unsubscribe of
  what was subscribed before. The session below runs the effect for \<^verbatim>\<open>main.py\<close>, then
  (the user having selected the second tab) for \<^verbatim>\<open>main.py Copy\<close>, both while the socket
  is connecting, and then opens the socket. Each run registered its own \<^verbatim>\<open>onOpen\<close>
  listener and returned no cleanup, so the frames sent are two subscribes with nothing
  between them, and the relay holds both files for this client.
\<close>

theorem deferred_subscriptions_pile_up:
  "selectTab ''tab-2'' twoTabs = Inr switched \<and>
   map_option sent (wsRef (run [Render twoTabs, Render switched, SocketOpen] connecting)) =
     Some [Subscribe ''main.py'', Subscribe ''main.py Copy''] \<and>
   subscribedAfter [Subscribe ''main.py'', Subscribe ''main.py Copy''] =
     [''main.py'', ''main.py Copy'']"
proof -
  have a: "selectTab ''tab-2'' twoTabs = Inr switched"
    by (simp add: selectTab_def findOrFirst_def findTab_def switched_def twoTabs_def
        mainStore_def mainTab_def copyTab_def tabLang_def)
  have b: "map_option sent (wsRef (run [Render twoTabs, Render switched, SocketOpen] connecting)) =
     Some [Subscribe ''main.py'', Subscribe ''main.py Copy'']"
    by (simp add: run_def connecting_def subscribeEffect_def twoTabs_key switched_key
        fireOpen_def onOpen_def wsSend_def)
  have c: "subscribedAfter [Subscribe ''main.py'', Subscribe ''main.py Copy''] =
     [''main.py'', ''main.py Copy'']"
    by (simp add: subscribedAfter_def)
  from a b c show ?thesis by simp
qed

lemma subscribedAfter_append:
  "subscribedAfter (fs @ gs) = foldl relay (subscribedAfter fs) gs"
  by (simp add: subscribedAfter_def)

text \<open>On a socket that is open the effect does drop everything before it subscribes.\<close>

lemma open_socket_single_subscription:
  assumes "wsRef s = Some w" and "readyState w = OPEN"
  shows "\<exists>w'. wsRef (step (Render st) s) = Some w' \<and> readyState w' = OPEN \<and>
           length (subscribedAfter (sent w')) \<le> 1"
proof -
  obtain w1 where w1: "(case cleanup s of None \<Rightarrow> wsRef s
      | Some ap \<Rightarrow> map_option (subscribeCleanup ap) (wsRef s)) = Some w1" "readyState w1 = OPEN"
    using assms
    by (cases "cleanup s") (auto simp: subscribeCleanup_def wsSend_def split: option.splits)
  then show ?thesis
    by (auto simp: subscribeEffect_def Let_def wsSend_def subscribedAfter_append
        split: option.splits)
qed








section \<open>Renaming through the server\<close>

lemma rename_empty:
  assumes "trim (editingValue ui) = []"
  shows "handleConfirmInlineRename renameFile tabId st ui =
     \<lparr>r_store = st, r_ui = ui\<lparr>editingError := ''Please provide a name''\<rparr>,
      r_remoteCalls = [], r_renameTabCalls = [], r_events = []\<rparr>"
  using assms by (simp add: handleConfirmInlineRename_def)

lemma rename_no_ext:
  assumes "trim (editingValue ui) \<noteq> []" and "extOf (trim (editingValue ui)) = None"
  shows "handleConfirmInlineRename renameFile tabId st ui =
     \<lparr>r_store = st, r_ui = ui\<lparr>editingError := ''File extension required (e.g. main.cpp)''\<rparr>,
      r_remoteCalls = [], r_renameTabCalls = [], r_events = []\<rparr>"
  using assms by (simp add: handleConfirmInlineRename_def)

lemma rename_bad_ext:
  assumes "trim (editingValue ui) \<noteq> []" and "extOf (trim (editingValue ui)) = Some e"
    and "map toLower e \<notin> set allowedExts"
  shows "handleConfirmInlineRename renameFile tabId st ui =
     \<lparr>r_store = st,
      r_ui = ui\<lparr>editingError := ''Unsupported extension '' @ [CHR 0x27] @ ''.'' @
                                  map toLower e @ [CHR 0x27] @ ''.''\<rparr>,
      r_remoteCalls = [], r_renameTabCalls = [], r_events = []\<rparr>"
  using assms by (simp add: handleConfirmInlineRename_def Let_def)

lemma rename_no_tab:
  assumes "\<not> invalidName (editingValue ui)" and "findTab tabId (tabs st) = None"
  shows "handleConfirmInlineRename renameFile tabId st ui =
     \<lparr>r_store = st, r_ui = handleCancelInlineRename ui,
      r_remoteCalls = [], r_renameTabCalls = [], r_events = []\<rparr>"
proof -
  from assms(1) obtain e where "trim (editingValue ui) \<noteq> []"
    "extOf (trim (editingValue ui)) = Some e" "map toLower e \<in> set allowedExts"
    by (auto simp: invalidName_def split: option.splits)
  with assms(2) show ?thesis by (simp add: handleConfirmInlineRename_def Let_def)
qed

lemma rename_accepted:
  assumes "\<not> invalidName (editingValue ui)" and "findTab tabId (tabs st) = Some t"
    and "renameFile (pathOrName t) (trim (editingValue ui)) = Renamed newPath"
  shows "handleConfirmInlineRename renameFile tabId st ui =
     \<lparr>r_store = renameTab tabId (trim (editingValue ui)) (js_or newPath None) st,
      r_ui = handleCancelInlineRename ui,
      r_remoteCalls = [(pathOrName t, trim (editingValue ui))],
      r_renameTabCalls = [(tabId, trim (editingValue ui), js_or newPath None)],
      r_events = [''project-structure-changed'']\<rparr>"
proof -
  from assms(1) obtain e where "trim (editingValue ui) \<noteq> []"
    "extOf (trim (editingValue ui)) = Some e" "map toLower e \<in> set allowedExts"
    by (auto simp: invalidName_def split: option.splits)
  with assms(2,3) show ?thesis by (simp add: handleConfirmInlineRename_def Let_def)
qed

lemma rename_rejected:
  assumes "\<not> invalidName (editingValue ui)" and "findTab tabId (tabs st) = Some t"
    and "renameFile (pathOrName t) (trim (editingValue ui)) = RenameRejected err"
  shows "handleConfirmInlineRename renameFile tabId st ui =
     \<lparr>r_store = st, r_ui = ui\<lparr>editingError := errorText err\<rparr>,
      r_remoteCalls = [(pathOrName t, trim (editingValue ui))],
      r_renameTabCalls = [], r_events = []\<rparr>"
proof -
  from assms(1) obtain e where "trim (editingValue ui) \<noteq> []"
    "extOf (trim (editingValue ui)) = Some e" "map toLower e \<in> set allowedExts"
    by (auto simp: invalidName_def split: option.splits)
  with assms(2,3) show ?thesis by (simp add: handleConfirmInlineRename_def Let_def)
qed

lemma rename_invalid:
  assumes "invalidName (editingValue ui)"
  shows "r_remoteCalls (handleConfirmInlineRename renameFile tabId st ui) = [] \<and>
      r_renameTabCalls (handleConfirmInlineRename renameFile tabId st ui) = [] \<and>
      r_store (handleConfirmInlineRename renameFile tabId st ui) = st \<and>
      editingError (r_ui (handleConfirmInlineRename renameFile tabId st ui)) \<noteq> []"
proof (cases "trim (editingValue ui) = []")
  case True
  then show ?thesis by (simp add: rename_empty)
next
  case ne: False
  show ?thesis
  proof (cases "extOf (trim (editingValue ui))")
    case None
    with ne show ?thesis by (simp add: rename_no_ext)
  next
    case (Some e)
    with assms ne have "map toLower e \<notin> set allowedExts" by (simp add: invalidName_def)
    with ne Some show ?thesis by (simp add: rename_bad_ext)
  qed
qed

lemma errorText_server: "responseError err = Some s \<Longrightarrow> s \<noteq> [] \<Longrightarrow> errorText err = s"
  by (simp add: errorText_def js_or_def truthy_def)

text \<open>
  What the handler does to the state. A rename whose new name is empty after trimming, has
  no extension, or has an extension outside the allowed set makes no remote call, calls
  \<^verbatim>\<open>renameTab\<close> not at all, leaves the store as it is and sets \<^verbatim>\<open>editingError\<close>. When the
  remote call was made and rejected, the store is untouched, \<^verbatim>\<open>renameTab\<close> was not called
  and \<^verbatim>\<open>editingError\<close> is the error's text. \<^verbatim>\<open>renameTab\<close> is called, and the store
  changes, only when the remote call for the trimmed name resolved.
\<close>

lemma rename_state_all_or_nothing:
  "(invalidName (editingValue ui) \<longrightarrow>
      r_remoteCalls (handleConfirmInlineRename renameFile tabId st ui) = [] \<and>
      r_renameTabCalls (handleConfirmInlineRename renameFile tabId st ui) = [] \<and>
      r_store (handleConfirmInlineRename renameFile tabId st ui) = st \<and>
      editingError (r_ui (handleConfirmInlineRename renameFile tabId st ui)) \<noteq> [])
   \<and> (\<forall>old new err.
        r_remoteCalls (handleConfirmInlineRename renameFile tabId st ui) = [(old, new)] \<and>
        renameFile old new = RenameRejected err \<longrightarrow>
          r_store (handleConfirmInlineRename renameFile tabId st ui) = st \<and>
          r_renameTabCalls (handleConfirmInlineRename renameFile tabId st ui) = [] \<and>
          editingError (r_ui (handleConfirmInlineRename renameFile tabId st ui)) = errorText err \<and>
          (\<forall>s. responseError err = Some s \<and> s \<noteq> [] \<longrightarrow> errorText err = s))
   \<and> (r_renameTabCalls (handleConfirmInlineRename renameFile tabId st ui) \<noteq> [] \<or>
       r_store (handleConfirmInlineRename renameFile tabId st ui) \<noteq> st \<longrightarrow>
        (\<exists>old newPath.
           r_remoteCalls (handleConfirmInlineRename renameFile tabId st ui) =
             [(old, trim (editingValue ui))] \<and>
           renameFile old (trim (editingValue ui)) = Renamed newPath \<and>
           r_renameTabCalls (handleConfirmInlineRename renameFile tabId st ui) =
             [(tabId, trim (editingValue ui), js_or newPath None)] \<and>
           r_store (handleConfirmInlineRename renameFile tabId st ui) =
             renameTab tabId (trim (editingValue ui)) (js_or newPath None) st))"
proof -
  let ?out = "handleConfirmInlineRename renameFile tabId st ui"
  let ?new = "trim (editingValue ui)"
  have b: "r_store ?out = st \<and> r_renameTabCalls ?out = [] \<and>
      editingError (r_ui ?out) = errorText err \<and>
      (\<forall>s. responseError err = Some s \<and> s \<noteq> [] \<longrightarrow> errorText err = s)"
    if h: "r_remoteCalls ?out = [(old, new)] \<and> renameFile old new = RenameRejected err"
    for old new err
  proof (cases "invalidName (editingValue ui)")
    case True
    with rename_invalid[OF True, of renameFile tabId st] h show ?thesis by simp
  next
    case valid: False
    show ?thesis
    proof (cases "findTab tabId (tabs st)")
      case None
      with h rename_no_tab[OF valid None, of renameFile] show ?thesis by simp
    next
      case (Some t)
      show ?thesis
      proof (cases "renameFile (pathOrName t) ?new")
        case (Renamed np)
        with h rename_accepted[where renameFile=renameFile, OF valid Some Renamed] show ?thesis by simp
      next
        case (RenameRejected e)
        with h rename_rejected[where renameFile=renameFile, OF valid Some RenameRejected] show ?thesis
          by (simp add: errorText_server)
      qed
    qed
  qed
  have c: "\<exists>old newPath. r_remoteCalls ?out = [(old, ?new)] \<and>
           renameFile old ?new = Renamed newPath \<and>
           r_renameTabCalls ?out = [(tabId, ?new, js_or newPath None)] \<and>
           r_store ?out = renameTab tabId ?new (js_or newPath None) st"
    if h: "r_renameTabCalls ?out \<noteq> [] \<or> r_store ?out \<noteq> st"
  proof (cases "invalidName (editingValue ui)")
    case True
    with rename_invalid[OF True, of renameFile tabId st] h show ?thesis by simp
  next
    case valid: False
    show ?thesis
    proof (cases "findTab tabId (tabs st)")
      case None
      with h rename_no_tab[OF valid None, of renameFile] show ?thesis by simp
    next
      case (Some t)
      show ?thesis
      proof (cases "renameFile (pathOrName t) ?new")
        case (Renamed np)
        with rename_accepted[where renameFile=renameFile, OF valid Some Renamed] show ?thesis by simp
      next
        case (RenameRejected e)
        with h rename_rejected[where renameFile=renameFile, OF valid Some RenameRejected] show ?thesis by simp
      qed
    qed
  qed
  from rename_invalid[of ui renameFile tabId st] b c show ?thesis by blast
qed

lemma renderTab_ignores_error: "renderTab (ui\<lparr>editingError := e\<rparr>) st t = renderTab ui st t"
  by (simp add: renderTab_def)

lemma renderTabs_ignores_error: "renderTabs (ui\<lparr>editingError := e\<rparr>) st = renderTabs ui st"
  by (simp add: renderTabs_def renderTab_ignores_error)

text \<open>
  Claim C8 says that a refused rename fails with an error the user sees, and that the
  server's error text is surfaced when the remote call fails. The handler does stop before
  the remote call and does leave the store alone, but the message goes to
  \<^verbatim>\<open>editingError\<close>, which the component never renders. Renaming the first tab to
  \<^verbatim>\<open>app.exe\<close> sets the message and makes no remote call, and the tab bar shows what it
  showed before; renaming it to \<^verbatim>\<open>app.py\<close> with the server answering \<^verbatim>\<open>File exists\<close>
  sets that text, and again the tab bar is as before.
\<close>

theorem rename_error_never_rendered:
  "invalidName ''  app.exe '' \<and>
   r_remoteCalls (handleConfirmInlineRename (\<lambda>old new. Renamed None) ''tab-1'' mainStore
                    (renaming ''  app.exe '')) = [] \<and>
   editingError (r_ui (handleConfirmInlineRename (\<lambda>old new. Renamed None) ''tab-1'' mainStore
                         (renaming ''  app.exe ''))) =
     ''Unsupported extension '' @ [CHR 0x27] @ ''.exe'' @ [CHR 0x27] @ ''.'' \<and>
   renderTabs (renaming ''  app.exe '') mainStore = [(RenameInput ''  app.exe '', False)] \<and>
   renderTabs (r_ui (handleConfirmInlineRename (\<lambda>old new. Renamed None) ''tab-1'' mainStore
                       (renaming ''  app.exe '')))
              (r_store (handleConfirmInlineRename (\<lambda>old new. Renamed None) ''tab-1'' mainStore
                          (renaming ''  app.exe ''))) = [(RenameInput ''  app.exe '', False)] \<and>
   r_remoteCalls (handleConfirmInlineRename
                    (\<lambda>old new. RenameRejected (serverSays ''File exists''))
                    ''tab-1'' mainStore (renaming ''app.py'')) = [(''main.py'', ''app.py'')] \<and>
   editingError (r_ui (handleConfirmInlineRename
                         (\<lambda>old new. RenameRejected (serverSays ''File exists''))
                         ''tab-1'' mainStore (renaming ''app.py''))) = ''File exists'' \<and>
   renderTabs (renaming ''app.py'') mainStore = [(RenameInput ''app.py'', False)] \<and>
   renderTabs (r_ui (handleConfirmInlineRename
                       (\<lambda>old new. RenameRejected (serverSays ''File exists''))
                       ''tab-1'' mainStore (renaming ''app.py'')))
              (r_store (handleConfirmInlineRename
                          (\<lambda>old new. RenameRejected (serverSays ''File exists''))
                          ''tab-1'' mainStore (renaming ''app.py''))) =
     [(RenameInput ''app.py'', False)]"
proof -
  have t1: "trim ''app.py'' = ''app.py''" "trim ''  app.exe '' = ''app.exe''"
    by (simp_all add: trim_def isSpace_def)
  have e: "extOf ''app.py'' = Some ''py''" "extOf ''app.exe'' = Some ''exe''"
    by (simp_all add: extOf_def isAlnum_def)
  have inv: "invalidName ''  app.exe ''"
    by (simp add: invalidName_def t1 e toLower_def allowedExts_def)
  have bad: "map toLower ''exe'' \<notin> set allowedExts"
    by (simp add: toLower_def allowedExts_def)
  have lo: "map toLower ''exe'' = ''exe''" by (simp add: toLower_def)
  have v2: "\<not> invalidName (editingValue (renaming ''app.py''))"
    by (simp add: invalidName_def renaming_def t1 e toLower_def allowedExts_def)
  have f: "findTab ''tab-1'' (tabs mainStore) = Some mainTab"
    by (simp add: findTab_def mainStore_def mainTab_def)
  have p: "pathOrName mainTab = ''main.py''"
    by (simp add: pathOrName_def mainTab_def js_or_def truthy_def)
  have s: "errorText (serverSays ''File exists'') = ''File exists''"
    by (simp add: errorText_def serverSays_def js_or_def truthy_def)
  have o1: "handleConfirmInlineRename (\<lambda>old new. Renamed None) ''tab-1'' mainStore
        (renaming ''  app.exe '') =
      \<lparr>r_store = mainStore,
       r_ui = (renaming ''  app.exe '')\<lparr>editingError :=
                ''Unsupported extension '' @ [CHR 0x27] @ ''.'' @ map toLower ''exe'' @
                [CHR 0x27] @ ''.''\<rparr>,
       r_remoteCalls = [], r_renameTabCalls = [], r_events = []\<rparr>"
    by (rule rename_bad_ext) (simp_all add: renaming_def t1 e toLower_def allowedExts_def)
  have o2: "handleConfirmInlineRename (\<lambda>old new. RenameRejected (serverSays ''File exists''))
        ''tab-1'' mainStore (renaming ''app.py'') =
      \<lparr>r_store = mainStore,
       r_ui = (renaming ''app.py'')\<lparr>editingError := errorText (serverSays ''File exists'')\<rparr>,
       r_remoteCalls = [(pathOrName mainTab, trim (editingValue (renaming ''app.py'')))],
       r_renameTabCalls = [], r_events = []\<rparr>"
    by (rule rename_rejected[where renameFile="\<lambda>old new. RenameRejected (serverSays ''File exists'')",
          OF v2 f]) simp
  have r1: "renderTabs (renaming ''  app.exe '') mainStore = [(RenameInput ''  app.exe '', False)]"
    by (simp add: renderTabs_def renderTab_def renaming_def mainStore_def mainTab_def)
  have r2: "renderTabs (renaming ''app.py'') mainStore = [(RenameInput ''app.py'', False)]"
    by (simp add: renderTabs_def renderTab_def renaming_def mainStore_def mainTab_def)
  have ev: "editingValue (renaming ''app.py'') = ''app.py''" by (simp add: renaming_def)
  have c1: "r_remoteCalls (handleConfirmInlineRename (\<lambda>old new. Renamed None) ''tab-1''
        mainStore (renaming ''  app.exe '')) = []"
    by (simp add: o1)
  have c2: "editingError (r_ui (handleConfirmInlineRename (\<lambda>old new. Renamed None) ''tab-1''
        mainStore (renaming ''  app.exe ''))) =
      ''Unsupported extension '' @ [CHR 0x27] @ ''.exe'' @ [CHR 0x27] @ ''.''"
    by (simp add: o1 toLower_def)
  have c3: "renderTabs (r_ui (handleConfirmInlineRename (\<lambda>old new. Renamed None) ''tab-1''
        mainStore (renaming ''  app.exe '')))
      (r_store (handleConfirmInlineRename (\<lambda>old new. Renamed None) ''tab-1'' mainStore
        (renaming ''  app.exe ''))) = [(RenameInput ''  app.exe '', False)]"
    by (simp add: o1 renderTabs_ignores_error r1)
  have c4: "r_remoteCalls (handleConfirmInlineRename
        (\<lambda>old new. RenameRejected (serverSays ''File exists''))
        ''tab-1'' mainStore (renaming ''app.py'')) = [(''main.py'', ''app.py'')]"
    by (simp add: o2 p ev t1)
  have c5: "editingError (r_ui (handleConfirmInlineRename
        (\<lambda>old new. RenameRejected (serverSays ''File exists''))
        ''tab-1'' mainStore (renaming ''app.py''))) = ''File exists''"
    by (simp add: o2 s)
  have c6: "renderTabs (r_ui (handleConfirmInlineRename
        (\<lambda>old new. RenameRejected (serverSays ''File exists''))
        ''tab-1'' mainStore (renaming ''app.py'')))
      (r_store (handleConfirmInlineRename
        (\<lambda>old new. RenameRejected (serverSays ''File exists''))
        ''tab-1'' mainStore (renaming ''app.py''))) = [(RenameInput ''app.py'', False)]"
    by (simp add: o2 renderTabs_ignores_error r2)
  from inv c1 c2 r1 c3 c4 c5 r2 c6 show ?thesis by (simp only: simp_thms)
qed

section \<open>The autosave tick\<close>







end
